theory Spec2Isabelle
  imports Main "HOL-Library.Word"
begin

unbundle bit_operations_syntax

section \<open>The CMX conference mixer and the DTMF decoder of mISDN\<close>

text \<open>
  A shallow embedding of \<^verbatim>\<open>dsp_cmx.c\<close> and \<^verbatim>\<open>dsp_dtmf.c\<close> (revision 1.1).
  C \<^verbatim>\<open>int\<close> and \<^verbatim>\<open>long\<close> values are HOL integers: the ring indices are
  masked with \<^verbatim>\<open>CMX_BUFF_MASK\<close> at every store, exactly as in the source, and
  frame lengths are far below the range of a machine integer. Arrays of
  \<^verbatim>\<open>CMX_BUFF_SIZE\<close> cells are total functions on indices; the source reads and
  writes them at indices that are masked, or were masked when they were stored.
\<close>

subsection \<open>Constants and tables\<close>

type_synonym byte = "8 word"

text \<open>
  Modelled from the spec: \<^verbatim>\<open>dsp.h\<close> is not among the sources. The spec requires
  \<^verbatim>\<open>BUFF_SIZE\<close> to be a power of two, \<^verbatim>\<open>BUFF_MASK = BUFF_SIZE - 1\<close> and
  \<^verbatim>\<open>BUFF_HALF = BUFF_SIZE / 2\<close>. The exponent \<open>k\<close> is a parameter of every
  operation that uses the ring.
\<close>

definition CMX_BUFF_SIZE :: "nat \<Rightarrow> int" where
  "CMX_BUFF_SIZE k = 2 ^ k"

definition CMX_BUFF_HALF :: "nat \<Rightarrow> int" where
  "CMX_BUFF_HALF k = 2 ^ k div 2"

definition CMX_BUFF_MASK :: "nat \<Rightarrow> int" where
  "CMX_BUFF_MASK k = 2 ^ k - 1"

text \<open>
  The companding tables of \<^verbatim>\<open>dsp_audio.c\<close> are read-only lookup tables that
  are not among the sources; they are a parameter.
\<close>

record audio_tables =
  dsp_audio_alaw_to_s32 :: "byte \<Rightarrow> int"
  dsp_audio_ulaw_to_s32 :: "byte \<Rightarrow> int"
  dsp_audio_s16_to_alaw :: "int \<Rightarrow> byte"
  dsp_audio_s16_to_ulaw :: "int \<Rightarrow> byte"
  alawsilence :: byte
  ulawsilence :: byte

subsection \<open>Data model\<close>

text \<open>
  Pointers are addresses (\<open>nat\<close>); a pointer that may be \<^verbatim>\<open>NULL\<close> is an
  \<open>option\<close>. A \<^verbatim>\<open>conf_member_t\<close> node carries its own address, because the
  source compares node pointers (\<^verbatim>\<open>member != dsp->member\<close>). The \<^verbatim>\<open>next\<close>
  chains of members and of conferences are lists in chain order.
\<close>

record conf_member_t =
  m_node :: nat
  m_dsp :: nat

record dsp_t =
  ulaw :: bool
  echo :: bool
  tx_mix :: bool
  tone_tone :: bool
  tone_pattern :: "int \<Rightarrow> byte"
  tone_index :: int
  conf_id :: nat
  b_active :: bool
  hfc_id :: nat
  conf :: "nat option"
  member_node :: "nat option"
  rx_buff :: "int \<Rightarrow> byte"
  tx_buff :: "int \<Rightarrow> byte"
  W_rx :: int
  R_rx :: int
  W_tx :: int
  R_tx :: int
  largest :: int

record conference_t =
  c_id :: nat
  mlist :: "conf_member_t list"
  conf_buff :: "int \<Rightarrow> int"
  c_W_min :: int
  c_W_max :: int
  c_largest :: int
  c_solution :: int
  c_hfc_id :: nat

text \<open>
  The hardware stubs \<^verbatim>\<open>dsp_cmx_hfc_cross_message\<close> and
  \<^verbatim>\<open>dsp_cmx_hfc_conf_message\<close> have empty bodies; the model records each call
  in \<open>hw_log\<close> so that the notifications can be counted.
\<close>

datatype hw_msg = CrossMessage nat nat int | ConfMessage nat int

record cmx_state =
  dsps :: "nat \<Rightarrow> dsp_t"
  confs :: "nat \<Rightarrow> conference_t"
  Conf_list :: "nat list"
  hw_log :: "hw_msg list"

definition decode_law :: "audio_tables \<Rightarrow> dsp_t \<Rightarrow> byte \<Rightarrow> int" where
  "decode_law tab d = (if ulaw d then dsp_audio_ulaw_to_s32 tab else dsp_audio_alaw_to_s32 tab)"

definition encode_law :: "audio_tables \<Rightarrow> dsp_t \<Rightarrow> int \<Rightarrow> byte" where
  "encode_law tab d = (if ulaw d then dsp_audio_s16_to_ulaw tab else dsp_audio_s16_to_alaw tab)"

definition silence :: "audio_tables \<Rightarrow> dsp_t \<Rightarrow> byte" where
  "silence tab d = (if ulaw d then ulawsilence tab else alawsilence tab)"

text \<open>\<^verbatim>\<open>conf->next\<close>: the conference that follows \<open>c\<close> in \<^verbatim>\<open>Conf_list\<close>.\<close>

fun list_next :: "nat \<Rightarrow> nat list \<Rightarrow> nat option" where
  "list_next c [] = None"
| "list_next c [x] = None"
| "list_next c (x # y # ys) = (if x = c then Some y else list_next c (y # ys))"

definition conf_next :: "cmx_state \<Rightarrow> nat \<Rightarrow> nat option" where
  "conf_next st c = list_next c (Conf_list st)"

subsection \<open>Receive path: \<^verbatim>\<open>dsp_cmx_receive\<close>\<close>

datatype rx_result = RxEmpty | RxTooLarge | RxTooFast | RxStored

text \<open>The member loop that lowers \<^verbatim>\<open>W_min\<close> to the write pointer of a slower member.\<close>

fun receive_W_min_loop :: "nat \<Rightarrow> cmx_state \<Rightarrow> nat option \<Rightarrow> int \<Rightarrow> conf_member_t list \<Rightarrow> int" where
  "receive_W_min_loop k st own W [] = W"
| "receive_W_min_loop k st own W (m # ms) =
     receive_W_min_loop k st own
       (if Some (m_node m) \<noteq> own
        then (if ((W_rx (dsps st (m_dsp m)) - W) AND CMX_BUFF_MASK k) \<ge> CMX_BUFF_HALF k
              then W_rx (dsps st (m_dsp m)) else W)
        else W) ms"

definition receive_W_min :: "nat \<Rightarrow> cmx_state \<Rightarrow> nat \<Rightarrow> int \<Rightarrow> int" where
  "receive_W_min k st p len =
     (let d = dsps st p; W = (W_rx d + len) AND CMX_BUFF_MASK k
      in case conf d of
           None \<Rightarrow> W
         | Some c \<Rightarrow> receive_W_min_loop k st (member_node d) W (mlist (confs st c)))"

definition receive_W_max :: "nat \<Rightarrow> cmx_state \<Rightarrow> nat \<Rightarrow> int \<Rightarrow> int" where
  "receive_W_max k st p W_min =
     (case conf (dsps st p) of
        None \<Rightarrow> W_min
      | Some c \<Rightarrow> (if ((W_min - c_W_max (confs st c)) AND CMX_BUFF_MASK k) \<ge> CMX_BUFF_HALF k
                   then c_W_max (confs st c) else W_min))"

text \<open>\<^verbatim>\<open>if (dsp->largest < (len<<1)) dsp->largest = (len<<1);\<close>\<close>

definition receive_largest :: "cmx_state \<Rightarrow> nat \<Rightarrow> int \<Rightarrow> cmx_state" where
  "receive_largest st p len =
     (let d = dsps st p
      in if largest d < push_bit 1 len
         then st\<lparr>dsps := (dsps st)(p := d\<lparr>largest := push_bit 1 len\<rparr>)\<rparr> else st)"

text \<open>"who is larger? dsp or conf": both end with the larger value.\<close>

definition receive_sync_largest :: "cmx_state \<Rightarrow> nat \<Rightarrow> cmx_state" where
  "receive_sync_largest st p =
     (case conf (dsps st p) of
        None \<Rightarrow> st
      | Some c \<Rightarrow>
          (let st1 = (if c_largest (confs st c) < largest (dsps st p)
                      then st\<lparr>confs := (confs st)(c := (confs st c)\<lparr>c_largest := largest (dsps st p)\<rparr>)\<rparr>
                      else st)
           in if c_largest (confs st1 c) > largest (dsps st1 p)
              then st1\<lparr>dsps := (dsps st1)(p := (dsps st1 p)\<lparr>largest := c_largest (confs st1 c)\<rparr>)\<rparr>
              else st1))"

text \<open>\<^verbatim>\<open>while(i < ii) { d[w++ & CMX_BUFF_MASK] = *p++; i++; }\<close>\<close>

fun rx_copy :: "nat \<Rightarrow> (int \<Rightarrow> byte) \<Rightarrow> int \<Rightarrow> byte list \<Rightarrow> (int \<Rightarrow> byte)" where
  "rx_copy k d w [] = d"
| "rx_copy k d w (b # bs) = rx_copy k (d(w AND CMX_BUFF_MASK k := b)) (w + 1) bs"

text \<open>The first conference loop adds to existing samples until the old \<^verbatim>\<open>W_max\<close>.\<close>

fun conf_add_loop :: "nat \<Rightarrow> (byte \<Rightarrow> int) \<Rightarrow> (int \<Rightarrow> int) \<Rightarrow> int \<Rightarrow> int \<Rightarrow> byte list
    \<Rightarrow> (int \<Rightarrow> int) \<times> int \<times> byte list" where
  "conf_add_loop k dec c w ww [] = (c, w, [])"
| "conf_add_loop k dec c w ww (b # bs) =
     (if w \<noteq> ww
      then conf_add_loop k dec (c(w := c w + dec b)) ((w + 1) AND CMX_BUFF_MASK k) ww bs
      else (c, w, b # bs))"

text \<open>The second loop writes the rest over whatever the ring held.\<close>

fun conf_write_loop :: "nat \<Rightarrow> (byte \<Rightarrow> int) \<Rightarrow> (int \<Rightarrow> int) \<Rightarrow> int \<Rightarrow> byte list \<Rightarrow> (int \<Rightarrow> int)" where
  "conf_write_loop k dec c w [] = c"
| "conf_write_loop k dec c w (b # bs) =
     conf_write_loop k dec (c(w := dec b)) ((w + 1) AND CMX_BUFF_MASK k) bs"

text \<open>
  \<^verbatim>\<open>if (conf) if (conf->next) if (conf->next->next)\<close>: the test follows the
  \<^verbatim>\<open>next\<close> pointer of the conference, which chains the conferences of
  \<^verbatim>\<open>Conf_list\<close>.
\<close>

definition receive_conf_buff :: "nat \<Rightarrow> audio_tables \<Rightarrow> cmx_state \<Rightarrow> nat \<Rightarrow> byte list \<Rightarrow> cmx_state" where
  "receive_conf_buff k tab st p data =
     (case conf (dsps st p) of
        None \<Rightarrow> st
      | Some c \<Rightarrow>
         (case conf_next st c of
            None \<Rightarrow> st
          | Some n \<Rightarrow>
             (case conf_next st n of
                None \<Rightarrow> st
              | Some _ \<Rightarrow>
                 (case conf_add_loop k (decode_law tab (dsps st p)) (conf_buff (confs st c))
                         (W_rx (dsps st p)) (c_W_max (confs st c)) data of
                    (c1, w, rest) \<Rightarrow>
                      st\<lparr>confs := (confs st)(c := (confs st c)
                           \<lparr>conf_buff := conf_write_loop k (decode_law tab (dsps st p)) c1 w rest\<rparr>)\<rparr>))))"

text \<open>\<^verbatim>\<open>conf->W_min = W_min;\<close> ("store for dsp_cmx_send"), inside \<^verbatim>\<open>if (conf)\<close>.\<close>

definition receive_set_W_min :: "cmx_state \<Rightarrow> nat \<Rightarrow> int \<Rightarrow> cmx_state" where
  "receive_set_W_min st p W_min =
     (case conf (dsps st p) of
        None \<Rightarrow> st
      | Some c \<Rightarrow> st\<lparr>confs := (confs st)(c := (confs st c)\<lparr>c_W_min := W_min\<rparr>)\<rparr>)"

text \<open>\<^verbatim>\<open>if (conf) conf->W_max = W_max;\<close>\<close>

definition receive_set_W_max :: "cmx_state \<Rightarrow> nat \<Rightarrow> int \<Rightarrow> cmx_state" where
  "receive_set_W_max st p W_max =
     (case conf (dsps st p) of
        None \<Rightarrow> st
      | Some c \<Rightarrow> st\<lparr>confs := (confs st)(c := (confs st c)\<lparr>c_W_max := W_max\<rparr>)\<rparr>)"

text \<open>The branch that writes: rx buffer, conference buffer, then the new pointers.\<close>

definition receive_store :: "nat \<Rightarrow> audio_tables \<Rightarrow> cmx_state \<Rightarrow> nat \<Rightarrow> byte list \<Rightarrow> int
    \<Rightarrow> cmx_state" where
  "receive_store k tab st p data W_max =
     (let st4 = st\<lparr>dsps := (dsps st)(p := (dsps st p)
                   \<lparr>rx_buff := rx_copy k (rx_buff (dsps st p)) (W_rx (dsps st p)) data\<rparr>)\<rparr>;
          st5 = receive_conf_buff k tab st4 p data;
          st6 = receive_set_W_max st5 p W_max
      in st6\<lparr>dsps := (dsps st6)(p := (dsps st6 p)
               \<lparr>W_rx := (W_rx (dsps st6 p) + int (length data)) AND CMX_BUFF_MASK k\<rparr>)\<rparr>)"

definition dsp_cmx_receive :: "nat \<Rightarrow> audio_tables \<Rightarrow> cmx_state \<Rightarrow> nat \<Rightarrow> byte list
    \<Rightarrow> rx_result \<times> cmx_state" where
  "dsp_cmx_receive k tab st p data =
     (let len = int (length data)
      in if len < 1 then (RxEmpty, st)
         else
           (let st1 = receive_largest st p len
            in if len \<ge> drop_bit 2 (CMX_BUFF_HALF k) then (RxTooLarge, st1)
               else
                 (let st2 = receive_sync_largest st1 p;
                      W_min = receive_W_min k st2 p len;
                      st3 = receive_set_W_min st2 p W_min;
                      W_max = receive_W_max k st3 p W_min
                  in if ((W_max - W_min) AND CMX_BUFF_MASK k) \<le> largest (dsps st3 p)
                     then (RxStored, receive_store k tab st3 p data W_max)
                     else (RxTooFast, st3))))"

subsection \<open>Conference registry and membership\<close>

datatype errno = EINVAL | ENOMEM

datatype ret = OK | Err errno

definition dsp_cmx_search_conf :: "cmx_state \<Rightarrow> nat \<Rightarrow> nat option" where
  "dsp_cmx_search_conf st i =
     (if i = 0 then None else find (\<lambda>c. c_id (confs st c) = i) (Conf_list st))"

text \<open>
  \<open>mem\<close> is what \<^verbatim>\<open>vmalloc\<close> returns for the member node. Modelled from the spec:
  \<^verbatim>\<open>APPEND_TO_LIST\<close> of \<^verbatim>\<open>helper.h\<close> (not among the sources) appends the node
  to the member list. The test after it is
  \<^verbatim>\<open>if (conf->mlist->next) if (!conf->mlist->next->next)\<close>.
\<close>

definition dsp_cmx_add_conf_member :: "audio_tables \<Rightarrow> cmx_state \<Rightarrow> nat option \<Rightarrow> nat option
    \<Rightarrow> nat option \<Rightarrow> errno + cmx_state" where
  "dsp_cmx_add_conf_member tab st dspp confp mem =
     (case (confp, dspp) of
        (Some c, Some p) \<Rightarrow>
          (let d = dsps st p
           in if member_node d \<noteq> None then Inl EINVAL
              else if conf d \<noteq> None then Inl EINVAL
              else
                (case mem of
                   None \<Rightarrow> Inl ENOMEM
                 | Some m \<Rightarrow>
                    (let cf = confs st c;
                         d1 = d\<lparr>rx_buff := (\<lambda>_. silence tab d),
                                W_rx := c_W_max cf, R_rx := c_W_max cf\<rparr>;
                         cf1 = cf\<lparr>mlist := mlist cf @ [\<lparr>m_node = m, m_dsp = p\<rparr>]\<rparr>;
                         cf2 = (case mlist cf1 of
                                  [_, _] \<Rightarrow> cf1\<lparr>conf_buff := (\<lambda>_. 0)\<rparr>
                                | _ \<Rightarrow> cf1)
                     in Inr (st\<lparr>dsps := (dsps st)(p := d1\<lparr>conf := Some c, member_node := Some m\<rparr>),
                                confs := (confs st)(c := cf2)\<rparr>))))
      | _ \<Rightarrow> Inl EINVAL)"

definition dsp_cmx_del_conf_member :: "cmx_state \<Rightarrow> nat option \<Rightarrow> errno + cmx_state" where
  "dsp_cmx_del_conf_member st dspp =
     (case dspp of
        None \<Rightarrow> Inl EINVAL
      | Some p \<Rightarrow>
         (case conf (dsps st p) of
            None \<Rightarrow> Inl EINVAL
          | Some c \<Rightarrow>
             (if mlist (confs st c) = [] then Inl EINVAL
              else
                (case find (\<lambda>m. m_dsp m = p) (mlist (confs st c)) of
                   None \<Rightarrow> Inl EINVAL
                 | Some m \<Rightarrow>
                     Inr (st\<lparr>confs := (confs st)(c := (confs st c)
                                \<lparr>mlist := remove1 m (mlist (confs st c))\<rparr>),
                             dsps := (dsps st)(p := (dsps st p)\<lparr>conf := None, member_node := None\<rparr>)\<rparr>)))))"

text \<open>\<open>mem\<close> is what \<^verbatim>\<open>vmalloc\<close> returns for the \<^verbatim>\<open>conference_t\<close>.\<close>

definition dsp_cmx_new_conf :: "cmx_state \<Rightarrow> nat \<Rightarrow> nat option \<Rightarrow> nat option \<times> cmx_state" where
  "dsp_cmx_new_conf st i mem =
     (if i = 0 then (None, st)
      else
        (case mem of
           None \<Rightarrow> (None, st)
         | Some c \<Rightarrow>
            (Some c,
             st\<lparr>confs := (confs st)(c :=
                   \<lparr>c_id = i, mlist = [], conf_buff = (\<lambda>_. 0), c_W_min = 0, c_W_max = 0,
                    c_largest = 0, c_solution = - 1, c_hfc_id = 0\<rparr>),
                Conf_list := Conf_list st @ [c]\<rparr>)))"

definition dsp_cmx_del_conf :: "cmx_state \<Rightarrow> nat option \<Rightarrow> errno + cmx_state" where
  "dsp_cmx_del_conf st confp =
     (case confp of
        None \<Rightarrow> Inl EINVAL
      | Some c \<Rightarrow>
         (if mlist (confs st c) \<noteq> [] then Inl EINVAL
          else Inr (st\<lparr>Conf_list := remove1 c (Conf_list st)\<rparr>)))"

subsection \<open>Hardware classifier: \<^verbatim>\<open>dsp_cmx_hfc\<close>\<close>

text \<open>The loop over the members; \<open>False\<close> stands for an early \<^verbatim>\<open>return(-1)\<close>.\<close>

fun hfc_members :: "cmx_state \<Rightarrow> conf_member_t list \<Rightarrow> conf_member_t list \<Rightarrow> bool" where
  "hfc_members st ml [] = True"
| "hfc_members st ml (m # ms) =
     (if tx_mix (dsps st (m_dsp m)) then False
      else if hfc_id (dsps st (m_dsp m)) = 0 then False
      else if (case ml of [] \<Rightarrow> True | f # _ \<Rightarrow> hfc_id (dsps st (m_dsp m)) \<noteq> hfc_id (dsps st (m_dsp f)))
      then False
      else hfc_members st ml ms)"

text \<open>
  The loop over \<^verbatim>\<open>Conf_list\<close> that fills \<^verbatim>\<open>freeunits\<close> and counts \<^verbatim>\<open>unit\<close>;
  \<open>None\<close> stands for an early \<^verbatim>\<open>return(-1)\<close>.
\<close>

fun hfc_units :: "cmx_state \<Rightarrow> nat \<Rightarrow> nat list \<Rightarrow> int list \<Rightarrow> int \<Rightarrow> (int list \<times> int) option" where
  "hfc_units st c [] freeunits unit = Some (freeunits, unit)"
| "hfc_units st c (t # ts) freeunits unit =
     (if t \<noteq> c \<and> c_hfc_id (confs st c) = c_hfc_id (confs st t)
      then
        (if c_solution (confs st t) > 8 then None
         else if c_solution (confs st t) > 0
         then
           (if freeunits ! nat (c_solution (confs st t) - 1) \<noteq> 0 then None
            else hfc_units st c ts
                   (freeunits[nat (c_solution (confs st t) - 1) := int (c_id (confs st t))])
                   (unit + 1))
         else hfc_units st c ts freeunits unit)
      else hfc_units st c ts freeunits unit)"

text \<open>
  \<^verbatim>\<open>i = 0; while(i < 8) if (unit > 8) { if (freeunits[i] == 0) return(i+1); i++; }
  return(-1);\<close>
  The result \<open>None\<close> is a loop that never ends.
\<close>

partial_function (option) hfc_free_unit :: "int list \<Rightarrow> int \<Rightarrow> int \<Rightarrow> int option" where
  "hfc_free_unit freeunits unit i =
     (if i < 8
      then (if unit > 8
            then (if freeunits ! nat i = 0 then Some (i + 1)
                  else hfc_free_unit freeunits unit (i + 1))
            else hfc_free_unit freeunits unit i)
      else Some (- 1))"

declare hfc_free_unit.simps [code]

definition dsp_cmx_hfc :: "cmx_state \<Rightarrow> nat option \<Rightarrow> int option" where
  "dsp_cmx_hfc st confp =
     (case confp of
        None \<Rightarrow> Some (- 1)
      | Some c \<Rightarrow>
         (if \<not> hfc_members st (mlist (confs st c)) (mlist (confs st c)) then Some (- 1)
          else if int (length (mlist (confs st c))) < 2 then Some (- 1)
          else if int (length (mlist (confs st c))) = 2 then Some 0
          else
            (case hfc_units st c (Conf_list st) (replicate 8 0) 0 of
               None \<Rightarrow> Some (- 1)
             | Some (freeunits, unit) \<Rightarrow>
                (if unit > 8 then Some (- 1)
                 else if c_solution (confs st c) > 0 then Some (c_solution (confs st c))
                 else hfc_free_unit freeunits unit 0))))"

subsection \<open>Reconfiguration: \<^verbatim>\<open>dsp_cmx\<close>\<close>

definition dsp_cmx_hfc_cross_message :: "cmx_state \<Rightarrow> nat \<Rightarrow> nat \<Rightarrow> int \<Rightarrow> cmx_state" where
  "dsp_cmx_hfc_cross_message st dsp1 dsp2 enable =
     st\<lparr>hw_log := hw_log st @ [CrossMessage dsp1 dsp2 enable]\<rparr>"

definition dsp_cmx_hfc_conf_message :: "cmx_state \<Rightarrow> nat \<Rightarrow> int \<Rightarrow> cmx_state" where
  "dsp_cmx_hfc_conf_message st dsp num = st\<lparr>hw_log := hw_log st @ [ConfMessage dsp num]\<rparr>"

text \<open>\<^verbatim>\<open>member1\<close> and \<^verbatim>\<open>member2\<close>: set when the list has exactly two nodes.\<close>

definition two_members :: "cmx_state \<Rightarrow> nat \<Rightarrow> (conf_member_t \<times> conf_member_t) option" where
  "two_members st c = (case mlist (confs st c) of [a, b] \<Rightarrow> Some (a, b) | _ \<Rightarrow> None)"

definition set_solution :: "cmx_state \<Rightarrow> nat \<Rightarrow> int \<Rightarrow> nat \<Rightarrow> cmx_state" where
  "set_solution st c sol hid =
     st\<lparr>confs := (confs st)(c := (confs st c)\<lparr>c_solution := sol, c_hfc_id := hid\<rparr>)\<rparr>"

text \<open>A conference message with \<open>num\<close> to every member, in list order.\<close>

definition conf_message_all :: "cmx_state \<Rightarrow> nat \<Rightarrow> int \<Rightarrow> cmx_state" where
  "conf_message_all st c num =
     foldl (\<lambda>s m. dsp_cmx_hfc_conf_message s (m_dsp m) num) st (mlist (confs st c))"

text \<open>"conference is not needed anymore" / "has become too complex".\<close>

definition hw_conf_off :: "cmx_state \<Rightarrow> nat \<Rightarrow> cmx_state" where
  "hw_conf_off st c = set_solution (conf_message_all st c 0) c (- 1) 0"

text \<open>The crossconnect is removed; \<^verbatim>\<open>only2members\<close> returns \<^verbatim>\<open>-EINVAL\<close>.\<close>

definition hw_cross_off :: "cmx_state \<Rightarrow> nat \<Rightarrow> (conf_member_t \<times> conf_member_t) option
    \<Rightarrow> errno + cmx_state" where
  "hw_cross_off st c m12 =
     (case m12 of
        None \<Rightarrow> Inl EINVAL
      | Some (member1, member2) \<Rightarrow>
          Inr (set_solution (dsp_cmx_hfc_cross_message st (m_dsp member1) (m_dsp member2) 0) c (- 1) 0))"

text \<open>"crossconnect is now possible".\<close>

definition hw_cross_on :: "cmx_state \<Rightarrow> nat \<Rightarrow> nat \<Rightarrow> errno + cmx_state" where
  "hw_cross_on st c p =
     (case mlist (confs st c) of
        [a, b] \<Rightarrow>
          Inr (set_solution (dsp_cmx_hfc_cross_message st (m_dsp a) (m_dsp b) 1) c 0
                 (hfc_id (dsps st p)))
      | _ \<Rightarrow> Inl EINVAL)"

text \<open>"conference is now possible".\<close>

definition hw_conf_on :: "cmx_state \<Rightarrow> nat \<Rightarrow> nat \<Rightarrow> int \<Rightarrow> cmx_state" where
  "hw_conf_on st c p new = set_solution (conf_message_all st c new) c new (hfc_id (dsps st p))"

text \<open>
  The block at \<^verbatim>\<open>remove_from_conf\<close>, entered with \<^verbatim>\<open>dsp->conf\<close> equal to \<open>c\<close>.
  The result \<open>None\<close> means that \<^verbatim>\<open>dsp_cmx_hfc\<close> did not return.
\<close>

definition remove_from_conf :: "cmx_state \<Rightarrow> nat \<Rightarrow> nat \<Rightarrow> (ret \<times> cmx_state) option" where
  "remove_from_conf st p c =
     (let old = c_solution (confs st c); m12 = two_members st c
      in case dsp_cmx_del_conf_member st (Some p) of
           Inl e \<Rightarrow> Some (Err e, st)
         | Inr st1 \<Rightarrow>
            (case dsp_cmx_hfc st1 (Some c) of
               None \<Rightarrow> None
             | Some new \<Rightarrow>
                (let st2 = (if new > 0 \<and> old > 0 then dsp_cmx_hfc_conf_message st1 p 0 else st1);
                     st3 = (if new \<le> 0 \<and> old > 0 then hw_conf_off st2 c else st2)
                 in case (if new < 0 \<and> old = 0 then hw_cross_off st3 c m12 else Inr st3) of
                      Inl e \<Rightarrow> Some (Err e, st3)
                    | Inr st4 \<Rightarrow>
                       (case (if new = 0 then hw_cross_on st4 c p else Inr st4) of
                          Inl e \<Rightarrow> Some (Err e, st4)
                        | Inr st5 \<Rightarrow>
                           (if mlist (confs st5 c) = []
                            then (case dsp_cmx_del_conf st5 (Some c) of
                                    Inl e \<Rightarrow> Some (Err e, st5)
                                  | Inr st6 \<Rightarrow> Some (OK, st6))
                            else Some (OK, st5))))))"

text \<open>
  The block at \<^verbatim>\<open>add_to_conf\<close>. \<open>cmem\<close> and \<open>mmem\<close> are the results of the two
  \<^verbatim>\<open>vmalloc\<close> calls. "if we are alone, we do nothing!" tests \<^verbatim>\<open>conf->next\<close>.
\<close>

definition add_to_conf :: "audio_tables \<Rightarrow> cmx_state \<Rightarrow> nat \<Rightarrow> nat option \<Rightarrow> nat option
    \<Rightarrow> (ret \<times> cmx_state) option" where
  "add_to_conf tab st p cmem mmem =
     (if conf_id (dsps st p) \<noteq> 0 \<and> b_active (dsps st p)
      then
        (case (case dsp_cmx_search_conf st (conf_id (dsps st p)) of
                 Some c \<Rightarrow> (Some c, st)
               | None \<Rightarrow> dsp_cmx_new_conf st (conf_id (dsps st p)) cmem) of
           (None, st1) \<Rightarrow> Some (Err EINVAL, st1)
         | (Some c, st1) \<Rightarrow>
            (let m12 = two_members st1 c
             in case dsp_cmx_add_conf_member tab st1 (Some p) (Some c) mmem of
                  Inl e \<Rightarrow> Some (Err e, st1)
                | Inr st2 \<Rightarrow>
                   (if conf_next st2 c = None then Some (OK, st2)
                    else
                      (case dsp_cmx_hfc st2 (Some c) of
                         None \<Rightarrow> None
                       | Some new \<Rightarrow>
                          (let old = c_solution (confs st2 c);
                               st3 = (if new \<le> 0 \<and> old > 0 then hw_conf_off st2 c else st2)
                           in case (if new \<noteq> 0 \<and> old = 0 then hw_cross_off st3 c m12 else Inr st3) of
                                Inl e \<Rightarrow> Some (Err e, st3)
                              | Inr st4 \<Rightarrow>
                                 (let st5 = (if new > 0 then hw_conf_on st4 c p new else st4)
                                  in case (if new = 0 then hw_cross_on st5 c p else Inr st5) of
                                       Inl e \<Rightarrow> Some (Err e, st5)
                                     | Inr st6 \<Rightarrow> Some (OK, st6)))))))
      else Some (OK, st))"

definition dsp_cmx :: "audio_tables \<Rightarrow> cmx_state \<Rightarrow> nat \<Rightarrow> nat option \<Rightarrow> nat option
    \<Rightarrow> (ret \<times> cmx_state) option" where
  "dsp_cmx tab st p cmem mmem =
     (case conf (dsps st p) of
        None \<Rightarrow>
          (if conf_id (dsps st p) = 0 then Some (OK, st) else add_to_conf tab st p cmem mmem)
      | Some c \<Rightarrow>
          (if conf_id (dsps st p) \<noteq> 0 \<and> b_active (dsps st p)
              \<and> conf_id (dsps st p) = c_id (confs st c)
           then Some (OK, st)
           else
             (case remove_from_conf st p c of
                None \<Rightarrow> None
              | Some (Err e, st1) \<Rightarrow> Some (Err e, st1)
              | Some (OK, st1) \<Rightarrow> add_to_conf tab st1 p cmem mmem)))"

subsection \<open>Send path: \<^verbatim>\<open>dsp_cmx_send\<close>\<close>

text \<open>
  The loops collect the bytes written through \<^verbatim>\<open>*d++\<close>, in order. Every
  loop of the function has one of two shapes, which differ only in the byte they write:
  \<^verbatim>\<open>while(r!=rr && t!=tt) { *d++ = f; t = (t+1) & CMX_BUFF_MASK; r = (r+1) & CMX_BUFF_MASK; }\<close>
  and \<^verbatim>\<open>while(r != rr) { *d++ = g; r = (r+1) & CMX_BUFF_MASK; }\<close>.
  A loop that never reaches \<open>rr\<close> has the value \<open>None\<close>.
\<close>

partial_function (option) send_tx_loop :: "nat \<Rightarrow> (int \<Rightarrow> int \<Rightarrow> byte) \<Rightarrow> int \<Rightarrow> int \<Rightarrow> int \<Rightarrow> int
    \<Rightarrow> byte list \<Rightarrow> (byte list \<times> int \<times> int) option" where
  "send_tx_loop k f r rr t tt d =
     (if r \<noteq> rr \<and> t \<noteq> tt
      then send_tx_loop k f ((r + 1) AND CMX_BUFF_MASK k) rr ((t + 1) AND CMX_BUFF_MASK k) tt
             (d @ [f t r])
      else Some (d, r, t))"

declare send_tx_loop.simps [code]

partial_function (option) send_rx_loop :: "nat \<Rightarrow> (int \<Rightarrow> byte) \<Rightarrow> int \<Rightarrow> int \<Rightarrow> byte list
    \<Rightarrow> byte list option" where
  "send_rx_loop k g r rr d =
     (if r \<noteq> rr then send_rx_loop k g ((r + 1) AND CMX_BUFF_MASK k) rr (d @ [g r]) else Some d)"

declare send_rx_loop.simps [code]

text \<open>The clamp to signed 16 bit and the table lookup \<^verbatim>\<open>encode_law[sample & 0xffff]\<close>.\<close>

definition saturate :: "int \<Rightarrow> int" where
  "saturate sample =
     (if sample < - 32768 then - 32768 else if sample > 32767 then 32767 else sample)"

definition encode_sample :: "audio_tables \<Rightarrow> dsp_t \<Rightarrow> int \<Rightarrow> byte" where
  "encode_sample tab d sample = encode_law tab d (saturate sample AND 65535)"

text \<open>
  Modelled from the spec: \<^verbatim>\<open>dsp_tone_copy\<close> of \<^verbatim>\<open>dsp_tones.c\<close> (not among the
  sources) fills the output with \<open>len\<close> tone samples.
\<close>

definition dsp_tone_copy :: "dsp_t \<Rightarrow> int \<Rightarrow> byte list \<times> dsp_t" where
  "dsp_tone_copy d len =
     (map (\<lambda>i. tone_pattern d (tone_index d + int i)) [0..<nat len],
      d\<lparr>tone_index := tone_index d + len\<rparr>)"

text \<open>The label \<^verbatim>\<open>single\<close>: one member, or no conference.\<close>

definition send_single :: "nat \<Rightarrow> audio_tables \<Rightarrow> dsp_t \<Rightarrow> int \<Rightarrow> int \<Rightarrow> int \<Rightarrow> int \<Rightarrow> byte list
    \<Rightarrow> (byte list \<times> int) option" where
  "send_single k tab d r rr t tt out =
     (if \<not> echo d
      then
        (case send_tx_loop k (\<lambda>t r. tx_buff d t) r rr t tt out of
           None \<Rightarrow> None
         | Some (out1, r1, t1) \<Rightarrow>
             Some (if r1 \<noteq> rr
                   then out1 @ replicate (nat ((rr - r1) AND CMX_BUFF_MASK k)) (silence tab d)
                   else out1, t1))
      else
        (case send_tx_loop k
                (\<lambda>t r. encode_sample tab d
                          (decode_law tab d (tx_buff d t) + decode_law tab d (rx_buff d r)))
                r rr t tt out of
           None \<Rightarrow> None
         | Some (out1, r1, t1) \<Rightarrow>
            (case send_rx_loop k (\<lambda>r. rx_buff d r) r1 rr out1 of
               None \<Rightarrow> None
             | Some out2 \<Rightarrow> Some (out2, t1))))"

text \<open>Two members; \<open>other\<close> is the other party.\<close>

definition send_pair :: "nat \<Rightarrow> audio_tables \<Rightarrow> dsp_t \<Rightarrow> dsp_t \<Rightarrow> int \<Rightarrow> int \<Rightarrow> int \<Rightarrow> int
    \<Rightarrow> byte list \<Rightarrow> (byte list \<times> int) option" where
  "send_pair k tab d other r rr t tt out =
     (if \<not> echo d
      then
        (case send_tx_loop k
                (\<lambda>t r. encode_sample tab d
                          (decode_law tab d (tx_buff d t) + decode_law tab other (rx_buff other r)))
                r rr t tt out of
           None \<Rightarrow> None
         | Some (out1, r1, t1) \<Rightarrow>
            (case send_rx_loop k (\<lambda>r. rx_buff other r) r1 rr out1 of
               None \<Rightarrow> None
             | Some out2 \<Rightarrow> Some (out2, t1)))
      else
        (case send_tx_loop k
                (\<lambda>t r. encode_sample tab d
                          (decode_law tab d (tx_buff d t) + decode_law tab other (rx_buff other r)
                            + decode_law tab d (rx_buff d r)))
                r rr t tt out of
           None \<Rightarrow> None
         | Some (out1, r1, t1) \<Rightarrow>
            (case send_rx_loop k
                    (\<lambda>r. encode_sample tab d
                            (decode_law tab other (rx_buff other r) + decode_law tab d (rx_buff d r)))
                    r1 rr out1 of
               None \<Rightarrow> None
             | Some out2 \<Rightarrow> Some (out2, t1))))"

text \<open>Three or more members; \<open>c\<close> is \<^verbatim>\<open>conf->conf_buff\<close>.\<close>

definition send_group :: "nat \<Rightarrow> audio_tables \<Rightarrow> dsp_t \<Rightarrow> (int \<Rightarrow> int) \<Rightarrow> int \<Rightarrow> int \<Rightarrow> int \<Rightarrow> int
    \<Rightarrow> byte list \<Rightarrow> (byte list \<times> int) option" where
  "send_group k tab d c r rr t tt out =
     (if \<not> echo d
      then
        (case send_tx_loop k
                (\<lambda>t r. encode_sample tab d
                          (decode_law tab d (tx_buff d t) + c r - decode_law tab d (rx_buff d r)))
                r rr t tt out of
           None \<Rightarrow> None
         | Some (out1, r1, t1) \<Rightarrow>
            (case send_rx_loop k
                    (\<lambda>r. encode_sample tab d (c r - decode_law tab d (rx_buff d r))) r1 rr out1 of
               None \<Rightarrow> None
             | Some out2 \<Rightarrow> Some (out2, t1)))
      else
        (case send_tx_loop k
                (\<lambda>t r. encode_sample tab d (decode_law tab d (tx_buff d t) + c r))
                r rr t tt out of
           None \<Rightarrow> None
         | Some (out1, r1, t1) \<Rightarrow>
            (case send_rx_loop k (\<lambda>r. encode_sample tab d (c r)) r1 rr out1 of
               None \<Rightarrow> None
             | Some out2 \<Rightarrow> Some (out2, t1))))"

text \<open>
  Everything after the tone test: the drain of the tx buffer ("if we have tx-data but do
  not use mixing"), then the branch for the member count. The result is the output
  and the final \<open>t\<close>, which every return path stores in \<^verbatim>\<open>dsp->R_tx\<close>. A
  conference whose member list is empty makes \<^verbatim>\<open>conf->mlist->next\<close> a
  dereference of \<^verbatim>\<open>NULL\<close>: no frame is returned, the result is \<open>None\<close>.
\<close>

definition send_data :: "nat \<Rightarrow> audio_tables \<Rightarrow> cmx_state \<Rightarrow> nat \<Rightarrow> dsp_t \<Rightarrow> int \<Rightarrow> int \<Rightarrow> int \<Rightarrow> int
    \<Rightarrow> (byte list \<times> int) option" where
  "send_data k tab st p d r rr t tt =
     (case (if \<not> tx_mix d \<and> t \<noteq> tt
            then send_tx_loop k (\<lambda>t r. tx_buff d t) r rr t tt []
            else Some ([], r, t)) of
        None \<Rightarrow> None
      | Some (out, r1, t1) \<Rightarrow>
         (if \<not> tx_mix d \<and> t \<noteq> tt \<and> r1 = rr then Some (out, t1)
          else
            (case conf d of
               None \<Rightarrow> send_single k tab d r1 rr t1 tt out
             | Some c \<Rightarrow>
                (case mlist (confs st c) of
                   [] \<Rightarrow> None
                 | [m] \<Rightarrow> send_single k tab d r1 rr t1 tt out
                 | [m1, m2] \<Rightarrow>
                     send_pair k tab d
                       (dsps st (if m_dsp m1 = p then m_dsp m2 else m_dsp m1)) r1 rr t1 tt out
                 | _ \<Rightarrow> send_group k tab d (conf_buff (confs st c)) r1 rr t1 tt out))))"

text \<open>The read limit: \<^verbatim>\<open>conf->W_min\<close> in a conference, else \<^verbatim>\<open>dsp->W_rx\<close>.\<close>

definition send_limit :: "cmx_state \<Rightarrow> nat \<Rightarrow> int" where
  "send_limit st p =
     (case conf (dsps st p) of Some c \<Rightarrow> c_W_min (confs st c) | None \<Rightarrow> W_rx (dsps st p))"

text \<open>"calculate actual r (if r+len would overrun rr)".\<close>

definition send_overrun :: "nat \<Rightarrow> cmx_state \<Rightarrow> nat \<Rightarrow> int \<Rightarrow> bool" where
  "send_overrun k st p len =
     (((send_limit st p - R_rx (dsps st p) - len) AND CMX_BUFF_MASK k) \<ge> CMX_BUFF_HALF k)"

definition send_r :: "nat \<Rightarrow> cmx_state \<Rightarrow> nat \<Rightarrow> int \<Rightarrow> int" where
  "send_r k st p len =
     (if send_overrun k st p len then (send_limit st p - len) AND CMX_BUFF_MASK k
      else R_rx (dsps st p))"

definition send_rr :: "nat \<Rightarrow> cmx_state \<Rightarrow> nat \<Rightarrow> int \<Rightarrow> int" where
  "send_rr k st p len =
     (if send_overrun k st p len then send_limit st p
      else (R_rx (dsps st p) + len) AND CMX_BUFF_MASK k)"

text \<open>
  The frame that is returned: \<^verbatim>\<open>d = skb_put(nskb, len)\<close> makes the data area of
  the fresh skb \<open>len\<close> bytes long, and the function writes into it from the start.
  A byte of the frame that nothing was written to is \<open>None\<close>: it holds whatever the
  allocator left there.
\<close>

definition skb_frame :: "int \<Rightarrow> byte list \<Rightarrow> byte option list" where
  "skb_frame len out = map Some out @ replicate (nat len - length out) None"

text \<open>
  \<open>alloc\<close> tells whether \<^verbatim>\<open>alloc_skb\<close> succeeds. Its size argument is unsigned:
  a negative \<open>len\<close> asks for more than \<open>2 ^ 31\<close> bytes, and that allocation fails.
  The result is \<open>None\<close> when the function does not return, otherwise the frame
  (\<open>None\<close> for \<^verbatim>\<open>NULL\<close>) and the new state. In the model the other party of a pair
  is read from the state before \<^verbatim>\<open>dsp->R_rx\<close> is stored; the store does not touch
  any buffer.
\<close>

definition dsp_cmx_send :: "nat \<Rightarrow> audio_tables \<Rightarrow> cmx_state \<Rightarrow> nat \<Rightarrow> int \<Rightarrow> bool
    \<Rightarrow> (byte option list option \<times> cmx_state) option" where
  "dsp_cmx_send k tab st p len alloc =
     (if \<not> alloc then Some (None, st)
      else if len < 0 then Some (None, st)
      else
        (let d = (dsps st p)\<lparr>R_rx := send_rr k st p len\<rparr>
         in if tone_tone d
            then
              (case dsp_tone_copy d len of
                 (out, d1) \<Rightarrow>
                   Some (Some (skb_frame len out),
                         st\<lparr>dsps := (dsps st)(p := d1\<lparr>R_tx := 0, W_tx := 0\<rparr>)\<rparr>))
            else
              (case send_data k tab st p d (send_r k st p len) (send_rr k st p len)
                      (R_tx (dsps st p)) (W_tx (dsps st p)) of
                 None \<Rightarrow> None
               | Some (out, t) \<Rightarrow>
                   Some (Some (skb_frame len out),
                         st\<lparr>dsps := (dsps st)(p := d\<lparr>R_tx := t\<rparr>)\<rparr>))))"

subsection \<open>DTMF decoder: \<^verbatim>\<open>dsp_dtmf_goertzel_decode\<close>\<close>

text \<open>
  The decoder collects samples in \<^verbatim>\<open>dsp->dtmf.buffer\<close>; every full buffer is a
  frame. A frame yields eight squared magnitudes \<^verbatim>\<open>result[0..7]\<close> (from the
  Goertzel sums, or directly from the hardware when \<open>fmt\<close> is 2), a decision
  \<^verbatim>\<open>what\<close> follows from them, and the decision is debounced. The sums of C
  \<^verbatim>\<open>long\<close> values are HOL integers; \<^verbatim>\<open>>>\<close> on them is \<open>drop_bit\<close>, which
  rounds down as the arithmetic shift does.

  Modelled from the spec: \<^verbatim>\<open>DSP_DTMF_NPOINTS\<close> is declared in \<^verbatim>\<open>dsp.h\<close>, which is
  not among the sources; the spec gives 102. The spec also gives the size of a block of
  hardware coefficients, \<^verbatim>\<open>sizeof(result)\<close>, as 32 bytes. How \<^verbatim>\<open>memcpy\<close> lays
  such a block out as eight \<^verbatim>\<open>long\<close> values is the parameter \<open>view\<close>, and the
  capacity \<^verbatim>\<open>sizeof(dsp->dtmf.digits)\<close> is the parameter \<open>cap\<close>.

  The field \<open>frame_log\<close> is not in the source: the model appends to it the eight
  results of every frame the decoder completes, so that properties can speak of the
  frames since the initialisation, which empties it. No operation reads it.
\<close>

record dtmf_t =
  dtmf_size :: int
  buffer :: "int \<Rightarrow> int"
  lastwhat :: byte
  lastdigit :: byte
  dtmf_count :: int
  digits :: "byte list"
  frame_log :: "int list list"

definition DSP_DTMF_NPOINTS :: int where
  "DSP_DTMF_NPOINTS = 102"

definition SIZEOF_RESULT :: nat where
  "SIZEOF_RESULT = 32"

definition NCOEFF :: int where
  "NCOEFF = 8"

definition DTMF_TRESH :: int where
  "DTMF_TRESH = 200000"

definition cos2pik :: "int list" where
  "cos2pik = [55960, 53912, 51402, 48438, 38146, 32650, 26170, 18630]"

text \<open>The digit matrix, as ASCII codes.\<close>

definition dtmf_matrix :: "byte list list" where
  "dtmf_matrix =
     [[0x31, 0x32, 0x33, 0x41],
      [0x34, 0x35, 0x36, 0x42],
      [0x37, 0x38, 0x39, 0x43],
      [0x2A, 0x30, 0x23, 0x44]]"

definition dsp_dtmf_goertzel_init :: "dtmf_t \<Rightarrow> dtmf_t" where
  "dsp_dtmf_goertzel_init dt =
     dt\<lparr>dtmf_size := 0, lastwhat := 0, lastdigit := 0, dtmf_count := 0, frame_log := []\<rparr>"

text \<open>
  \<^verbatim>\<open>while(size<DSP_DTMF_NPOINTS && len) { buf[size++] = law[*data++]; len--; }\<close>
  The buffer holds \<^verbatim>\<open>signed short\<close> values.
\<close>

fun dtmf_fill :: "(byte \<Rightarrow> int) \<Rightarrow> (int \<Rightarrow> int) \<Rightarrow> int \<Rightarrow> byte list
    \<Rightarrow> (int \<Rightarrow> int) \<times> int \<times> byte list" where
  "dtmf_fill law buf sz [] = (buf, sz, [])"
| "dtmf_fill law buf sz (b # bs) =
     (if sz < DSP_DTMF_NPOINTS
      then dtmf_fill law (buf(sz := signed_take_bit 15 (law b))) (sz + 1) bs
      else (buf, sz, b # bs))"

text \<open>
  The inner loop over the samples for one coefficient \<open>c\<close>; the state is
  \<open>(sk, sk1, sk2)\<close>.
\<close>

definition goertzel :: "int \<Rightarrow> (int \<Rightarrow> int) \<Rightarrow> int \<times> int \<times> int" where
  "goertzel c buf =
     foldl (\<lambda>(sk, sk1, sk2) n. (drop_bit 15 (c * sk1) - sk2 + buf (int n),
                                drop_bit 15 (c * sk1) - sk2 + buf (int n), sk1))
       (0, 0, 0) [0..<nat DSP_DTMF_NPOINTS]"

text \<open>"compute |X(k)|**2", after \<^verbatim>\<open>sk>>=8; sk2>>=8;\<close>\<close>

definition goertzel_power :: "int \<Rightarrow> (int \<Rightarrow> int) \<Rightarrow> int" where
  "goertzel_power c buf =
     (case goertzel c buf of
        (sk, sk1, sk2) \<Rightarrow>
          drop_bit 8 sk * drop_bit 8 sk - drop_bit 15 (c * drop_bit 8 sk) * drop_bit 8 sk2
            + drop_bit 8 sk2 * drop_bit 8 sk2)"

definition goertzel_result :: "(int \<Rightarrow> int) \<Rightarrow> int list" where
  "goertzel_result buf = map (\<lambda>c. goertzel_power c buf) cos2pik"

text \<open>Negative results become 0; \<^verbatim>\<open>tresh\<close> is the largest result above \<^verbatim>\<open>DTMF_TRESH\<close>.\<close>

fun dtmf_peak :: "int list \<Rightarrow> int \<Rightarrow> int list \<times> int" where
  "dtmf_peak [] tresh = ([], tresh)"
| "dtmf_peak (x # xs) tresh =
     (let x0 = (if x < 0 then 0 else x);
          tresh1 = (if x0 > DTMF_TRESH then (if x0 > tresh then x0 else tresh) else tresh)
      in case dtmf_peak xs tresh1 of (ys, tresh2) \<Rightarrow> (x0 # ys, tresh2))"

text \<open>The loop "calc digit (lowgroup/highgroup)" with its \<^verbatim>\<open>continue\<close> and \<^verbatim>\<open>break\<close>.\<close>

fun dtmf_groups :: "int \<Rightarrow> int \<Rightarrow> int list \<Rightarrow> int \<Rightarrow> int \<Rightarrow> int \<Rightarrow> int \<times> int" where
  "dtmf_groups treshl tresh [] i lowgroup highgroup = (lowgroup, highgroup)"
| "dtmf_groups treshl tresh (x # xs) i lowgroup highgroup =
     (if x < treshl then dtmf_groups treshl tresh xs (i + 1) lowgroup highgroup
      else if x < tresh then (- 1, - 1)
      else if i < NCOEFF div 2
      then (if lowgroup \<ge> 0 then (- 1, highgroup)
            else dtmf_groups treshl tresh xs (i + 1) i highgroup)
      else (if highgroup \<ge> 0 then (lowgroup, - 1)
            else dtmf_groups treshl tresh xs (i + 1) lowgroup (i - NCOEFF div 2)))"

text \<open>From the label \<^verbatim>\<open>coefficients\<close> to the label \<^verbatim>\<open>storedigit\<close>.\<close>

definition dtmf_what :: "int list \<Rightarrow> byte" where
  "dtmf_what result =
     (case dtmf_peak result 0 of
        (res, tresh) \<Rightarrow>
          (if tresh = 0 then 0
           else
             (case dtmf_groups (drop_bit 3 tresh) (drop_bit 2 tresh) res 0 (- 1) (- 1) of
                (lowgroup, highgroup) \<Rightarrow>
                  (if lowgroup \<ge> 0 \<and> highgroup \<ge> 0
                   then dtmf_matrix ! nat lowgroup ! nat highgroup else 0))))"

text \<open>
  The label \<^verbatim>\<open>storedigit\<close>: "the tone (or no tone) must remain 3 times without
  change". \<open>digits\<close> is the C string without its terminating zero.
\<close>

definition storedigit :: "int \<Rightarrow> dtmf_t \<Rightarrow> byte \<Rightarrow> dtmf_t" where
  "storedigit cap dt what =
     (let dt1 = (if lastwhat dt \<noteq> what then dt\<lparr>dtmf_count := 0\<rparr> else dt);
          dt2 = (if dtmf_count dt1 = 2
                 then (if lastdigit dt1 \<noteq> what
                       then (let dt3 = dt1\<lparr>lastdigit := what\<rparr>
                             in if what \<noteq> 0
                                then (if int (length (digits dt3)) + 1 < cap
                                      then dt3\<lparr>digits := digits dt3 @ [what]\<rparr> else dt3)
                                else dt3)
                       else dt1)
                 else dt1\<lparr>dtmf_count := dtmf_count dt1 + 1\<rparr>)
      in dt2\<lparr>lastwhat := what\<rparr>)"

text \<open>What one frame with the results \<open>result\<close> does, from \<^verbatim>\<open>coefficients\<close> to \<^verbatim>\<open>goto again\<close>.\<close>

definition dtmf_frame :: "int \<Rightarrow> dtmf_t \<Rightarrow> int list \<Rightarrow> dtmf_t" where
  "dtmf_frame cap dt result = storedigit cap dt (dtmf_what result)"

text \<open>
  The loop from the label \<^verbatim>\<open>again\<close>. With samples (\<open>fmt\<close> 0 or 1) it fills the
  buffer, returns when the buffer is not full, and otherwise decides on the frame and
  goes on with the rest of the data. With hardware coefficients it takes one block per
  round.
\<close>

function decode_loop :: "audio_tables \<Rightarrow> (byte list \<Rightarrow> int list) \<Rightarrow> int \<Rightarrow> int \<Rightarrow> dtmf_t \<Rightarrow> byte list
    \<Rightarrow> dtmf_t" where
  "decode_loop tab view cap fmt dt data =
     (if fmt = 0 \<or> fmt = 1
      then
        (case dtmf_fill (if fmt = 0 then dsp_audio_alaw_to_s32 tab else dsp_audio_ulaw_to_s32 tab)
                (buffer dt) (dtmf_size dt) data of
           (buf, sz, rest) \<Rightarrow>
             (if sz < DSP_DTMF_NPOINTS then dt\<lparr>buffer := buf, dtmf_size := sz\<rparr>
              else decode_loop tab view cap fmt
                     (dtmf_frame cap
                        (dt\<lparr>buffer := buf, dtmf_size := 0,
                            frame_log := frame_log dt @ [goertzel_result buf]\<rparr>)
                        (goertzel_result buf))
                     rest))
      else
        (if data = [] then dt
         else if length data < SIZEOF_RESULT then dt
         else decode_loop tab view cap fmt
                (dtmf_frame cap
                   (dt\<lparr>frame_log := frame_log dt @ [view (take SIZEOF_RESULT data)]\<rparr>)
                   (view (take SIZEOF_RESULT data)))
                (drop SIZEOF_RESULT data)))"
  by pat_completeness auto

termination
proof (relation "measure (\<lambda>(tab, view, cap, fmt, dt, data).
          2 * length data + (if (fmt = 0 \<or> fmt = 1) \<and> dtmf_size dt \<ge> DSP_DTMF_NPOINTS then 1 else 0))")
  show "wf (measure (\<lambda>(tab, view, cap, fmt, dt, data).
          2 * length data + (if (fmt = 0 \<or> fmt = 1) \<and> dtmf_size dt \<ge> DSP_DTMF_NPOINTS then 1 else 0)))"
    by simp
next
  fix tab :: audio_tables and view :: "byte list \<Rightarrow> int list" and cap fmt :: int
    and dt :: dtmf_t and data :: "byte list"
    and buf :: "int \<Rightarrow> int" and y :: "int \<times> byte list" and sz :: int and rest :: "byte list"
  assume f: "fmt = 0 \<or> fmt = 1"
    and xy: "(buf, y) = dtmf_fill (if fmt = 0 then dsp_audio_alaw_to_s32 tab else dsp_audio_ulaw_to_s32 tab)
                 (buffer dt) (dtmf_size dt) data"
    and y: "(sz, rest) = y" and full: "\<not> sz < DSP_DTMF_NPOINTS"
  have fill: "\<And>law b s d b' s' r. dtmf_fill law b s d = (b', s', r) \<Longrightarrow>
                 length r < length d \<or> (r = d \<and> s' = s)"
  proof -
    fix law b s d b' s' r
    show "dtmf_fill law b s d = (b', s', r) \<Longrightarrow> length r < length d \<or> (r = d \<and> s' = s)"
    proof (induction d arbitrary: b s)
      case Nil
      then show ?case by simp
    next
      case (Cons a d)
      show ?case
      proof (cases "s < DSP_DTMF_NPOINTS")
        case True
        with Cons.prems have "dtmf_fill law (b(s := signed_take_bit 15 (law a))) (s + 1) d = (b', s', r)"
          by simp
        from Cons.IH[OF this] show ?thesis by auto
      next
        case False
        with Cons.prems show ?thesis by simp
      qed
    qed
  qed
  have "dtmf_fill (if fmt = 0 then dsp_audio_alaw_to_s32 tab else dsp_audio_ulaw_to_s32 tab)
          (buffer dt) (dtmf_size dt) data = (buf, sz, rest)"
    using xy y by simp
  from fill[OF this] have "length rest < length data \<or> (rest = data \<and> sz = dtmf_size dt)" .
  then show "((tab, view, cap, fmt,
           dtmf_frame cap
             (dt\<lparr>buffer := buf, dtmf_size := 0, frame_log := frame_log dt @ [goertzel_result buf]\<rparr>)
             (goertzel_result buf), rest),
          (tab, view, cap, fmt, dt, data))
        \<in> measure (\<lambda>(tab, view, cap, fmt, dt, data).
          2 * length data + (if (fmt = 0 \<or> fmt = 1) \<and> dtmf_size dt \<ge> DSP_DTMF_NPOINTS then 1 else 0))"
    using f full by (auto simp add: dtmf_frame_def storedigit_def Let_def DSP_DTMF_NPOINTS_def)
next
  fix tab :: audio_tables and view :: "byte list \<Rightarrow> int list" and cap fmt :: int
    and dt :: dtmf_t and data :: "byte list"
  assume "\<not> (fmt = 0 \<or> fmt = 1)" and "data \<noteq> []" and "\<not> length data < SIZEOF_RESULT"
  then show "((tab, view, cap, fmt,
           dtmf_frame cap (dt\<lparr>frame_log := frame_log dt @ [view (take SIZEOF_RESULT data)]\<rparr>)
             (view (take SIZEOF_RESULT data)), drop SIZEOF_RESULT data),
          (tab, view, cap, fmt, dt, data))
        \<in> measure (\<lambda>(tab, view, cap, fmt, dt, data).
          2 * length data + (if (fmt = 0 \<or> fmt = 1) \<and> dtmf_size dt \<ge> DSP_DTMF_NPOINTS then 1 else 0))"
    by (simp add: SIZEOF_RESULT_def)
qed

declare decode_loop.simps [simp del]

text \<open>Each call empties the digit string first; the string is what the call returns.\<close>

definition dsp_dtmf_goertzel_decode :: "audio_tables \<Rightarrow> (byte list \<Rightarrow> int list) \<Rightarrow> int \<Rightarrow> dtmf_t
    \<Rightarrow> byte list \<Rightarrow> int \<Rightarrow> dtmf_t" where
  "dsp_dtmf_goertzel_decode tab view cap dt data fmt =
     decode_loop tab view cap fmt (dt\<lparr>digits := []\<rparr>) data"

text \<open>A session: the initialisation, then calls of the decoder with data and format.\<close>

definition dtmf_session :: "audio_tables \<Rightarrow> (byte list \<Rightarrow> int list) \<Rightarrow> int \<Rightarrow> dtmf_t
    \<Rightarrow> (byte list \<times> int) list \<Rightarrow> dtmf_t" where
  "dtmf_session tab view cap dt calls =
     foldl (\<lambda>d (data, fmt). dsp_dtmf_goertzel_decode tab view cap d data fmt)
       (dsp_dtmf_goertzel_init dt) calls"

text \<open>
  The debouncer inside a call that started in the state \<open>dt\<close>, after the frames
  with the results \<open>fs\<close>.
\<close>

definition within_call :: "int \<Rightarrow> dtmf_t \<Rightarrow> int list list \<Rightarrow> dtmf_t" where
  "within_call cap dt fs = foldl (dtmf_frame cap) (dt\<lparr>digits := []\<rparr>) fs"

text \<open>
  What the counter means, for the decisions \<open>ds\<close> of all frames so far: it counts
  how many of the latest decisions, up to two, are the one that \<^verbatim>\<open>lastwhat\<close> holds.
\<close>

definition debounced :: "byte list \<Rightarrow> dtmf_t \<Rightarrow> bool" where
  "debounced ds dt =
     (dtmf_count dt = 0 \<and> ds = []
      \<or> dtmf_count dt = 1 \<and> (\<exists>pre. ds = pre @ [lastwhat dt])
      \<or> dtmf_count dt = 2 \<and> (\<exists>pre. ds = pre @ [lastwhat dt, lastwhat dt]))"

subsection \<open>Example states\<close>

text \<open>
  Concrete inputs for the evaluations below: tables that read a byte as a signed number,
  channels that ask for conference 1 on the hardware with id 7, and an empty registry.
  The ring has \<open>2 ^ 14\<close> cells.
\<close>

definition example_tables :: audio_tables where
  "example_tables =
     \<lparr>dsp_audio_alaw_to_s32 = sint, dsp_audio_ulaw_to_s32 = sint,
      dsp_audio_s16_to_alaw = word_of_int, dsp_audio_s16_to_ulaw = word_of_int,
      alawsilence = 0x2A, ulawsilence = 0xFF\<rparr>"

definition idle_dsp :: dsp_t where
  "idle_dsp =
     \<lparr>ulaw = False, echo = False, tx_mix = False, tone_tone = False,
      tone_pattern = (\<lambda>_. 0), tone_index = 0, conf_id = 1, b_active = True, hfc_id = 7,
      conf = None, member_node = None, rx_buff = (\<lambda>_. 0), tx_buff = (\<lambda>_. 0),
      W_rx = 0, R_rx = 0, W_tx = 0, R_tx = 0, largest = 0\<rparr>"

definition blank_conf :: conference_t where
  "blank_conf =
     \<lparr>c_id = 0, mlist = [], conf_buff = (\<lambda>_. 0), c_W_min = 0, c_W_max = 0,
      c_largest = 0, c_solution = - 1, c_hfc_id = 0\<rparr>"

definition empty_registry :: cmx_state where
  "empty_registry =
     \<lparr>dsps = (\<lambda>_. idle_dsp), confs = (\<lambda>_. blank_conf), Conf_list = [], hw_log = []\<rparr>"

text \<open>
  The states after channels 1, 2 and 3 have joined conference 1 through
  \<^verbatim>\<open>dsp_cmx\<close>. The conference lives at address 1 and the member node of
  channel \<open>p\<close> at address \<open>p\<close>.
\<close>

definition joined_dsp :: "nat \<Rightarrow> dsp_t" where
  "joined_dsp p = idle_dsp\<lparr>conf := Some 1, member_node := Some p, rx_buff := (\<lambda>_. 0x2A)\<rparr>"

definition party_conf :: "nat list \<Rightarrow> conference_t" where
  "party_conf ps = blank_conf\<lparr>c_id := 1, mlist := map (\<lambda>p. \<lparr>m_node = p, m_dsp = p\<rparr>) ps\<rparr>"

definition party :: "nat list \<Rightarrow> cmx_state" where
  "party ps =
     \<lparr>dsps = (\<lambda>q. if q \<in> set ps then joined_dsp q else idle_dsp),
      confs = (\<lambda>c. if c = 1 then party_conf ps else blank_conf),
      Conf_list = [1], hw_log = []\<rparr>"

text \<open>
  A conference whose mix buffer holds the sample 7 in every cell, as after frames were
  mixed into it.
\<close>

definition with_mix :: "cmx_state \<Rightarrow> cmx_state" where
  "with_mix st = st\<lparr>confs := (confs st)(1 := (confs st 1)\<lparr>conf_buff := (\<lambda>_. 7)\<rparr>)\<rparr>"

text \<open>A decoder state before \<^verbatim>\<open>dsp_dtmf_goertzel_init\<close>, with stale fields.\<close>

definition stale_dtmf :: dtmf_t where
  "stale_dtmf =
     \<lparr>dtmf_size = 17, buffer = (\<lambda>_. 0), lastwhat = 0x31, lastdigit = 0x31, dtmf_count = 2,
      digits = [0x31], frame_log = []\<rparr>"

text \<open>The results of a frame that holds the two tones of the digit 5 and nothing else.\<close>

definition tone_5 :: "int list" where
  "tone_5 = [0, 1000000, 0, 0, 0, 1000000, 0, 0]"

text \<open>
  Channel 1 of a pair has received four frames of 2047 bytes while channel 2 has
  received none: its write pointer is 8188 and \<^verbatim>\<open>largest\<close> is 4094.
\<close>

definition far_ahead :: cmx_state where
  "far_ahead =
     (party [1, 2])
       \<lparr>dsps := (dsps (party [1, 2]))(1 := (joined_dsp 1)\<lparr>W_rx := 8188, largest := 4094\<rparr>),
        confs := (confs (party [1, 2]))(1 := (party_conf [1, 2])\<lparr>c_largest := 4094\<rparr>)\<rparr>"

text \<open>
  Blocks of hardware coefficients: the example layout reads a block that starts with a
  nonzero byte as the results of the digit 5, and any other block as silence.
\<close>

definition tone_block :: "byte list" where
  "tone_block = 1 # replicate 31 0"

definition quiet_block :: "byte list" where
  "quiet_block = replicate 32 0"

definition example_view :: "byte list \<Rightarrow> int list" where
  "example_view bytes =
     (case bytes of [] \<Rightarrow> replicate 8 0 | b # _ \<Rightarrow> if b = 0 then replicate 8 0 else tone_5)"

text \<open>
  Hardware blocks for the digit 5 dialled twice: three frames of the tone, three of
  silence, and two of the tone again, to which a caller appends the third.
\<close>

definition dial_5_pause_5 :: "byte list" where
  "dial_5_pause_5 =
     concat (replicate 3 tone_block @ replicate 3 quiet_block @ replicate 2 tone_block)"


text \<open>
  Channel 1 of a pair has a tone switched on and has received 300 bytes; channel 2 has
  received 2 bytes, so the conference's \<^verbatim>\<open>W_min\<close> is 2.
\<close>

definition tone_member :: cmx_state where
  "tone_member =
     (party [1, 2])
       \<lparr>dsps := (dsps (party [1, 2]))(1 := (joined_dsp 1)\<lparr>tone_tone := True, W_rx := 300\<rparr>,
                                       2 := (joined_dsp 2)\<lparr>W_rx := 2\<rparr>),
        confs := (confs (party [1, 2]))(1 := (party_conf [1, 2])\<lparr>c_W_min := 2, c_W_max := 300\<rparr>)\<rparr>"

section \<open>Properties\<close>

subsection \<open>Ring arithmetic and the receive path\<close>

lemma mask_mod: "x AND CMX_BUFF_MASK k = x mod 2 ^ k"
  by (simp add: CMX_BUFF_MASK_def flip: mask_eq_exp_minus_1 take_bit_eq_mask add: take_bit_eq_mod)

lemma half_shift: "drop_bit 2 (CMX_BUFF_HALF k) = 2 ^ k div 8"
  by (simp add: CMX_BUFF_HALF_def drop_bit_eq_div zdiv_zmult2_eq)

lemma rx_copy_other:
  "\<forall>i. 0 \<le> i \<and> i < int (length bs) \<longrightarrow> j \<noteq> (w + i) mod 2 ^ k \<Longrightarrow> rx_copy k d w bs j = d j"
proof (induction bs arbitrary: d w)
  case Nil
  then show ?case by simp
next
  case (Cons b bs)
  have a: "\<forall>i. 0 \<le> i \<and> i < int (length bs) \<longrightarrow> j \<noteq> (w + 1 + i) mod 2 ^ k"
  proof (intro allI impI)
    fix i assume "0 \<le> i \<and> i < int (length bs)"
    then have "0 \<le> i + 1 \<and> i + 1 < int (length (b # bs))" by simp
    with Cons.prems have "j \<noteq> (w + (i + 1)) mod 2 ^ k" by blast
    moreover have "w + (i + 1) = w + 1 + i" by simp
    ultimately show "j \<noteq> (w + 1 + i) mod 2 ^ k" by simp
  qed
  have b: "j \<noteq> w mod 2 ^ k" using Cons.prems[rule_format, of 0] by simp
  show ?case using Cons.IH[OF a] b by (simp add: mask_mod)
qed

lemma mod_shift_neq:
  fixes w :: int
  assumes "0 < e" "e < 2 ^ k"
  shows "w mod 2 ^ k \<noteq> (w + e) mod 2 ^ k"
proof
  assume "w mod 2 ^ k = (w + e) mod 2 ^ k"
  then have "(w + e - w) mod 2 ^ k = 0"
    by (metis mod_diff_cong cancel_comm_monoid_add_class.diff_cancel mod_0)
  then have "e mod 2 ^ k = 0" by simp
  with assms show False by simp
qed

lemma rx_copy_stored:
  "length bs \<le> 2 ^ k \<Longrightarrow> i < length bs \<Longrightarrow> rx_copy k d w bs ((w + int i) mod 2 ^ k) = bs ! i"
proof (induction bs arbitrary: d w i)
  case Nil
  then show ?case by simp
next
  case (Cons b bs)
  have len: "1 + int (length bs) \<le> 2 ^ k"
  proof -
    have "Suc (length bs) \<le> 2 ^ k" using Cons.prems(1) by simp
    then have "int (Suc (length bs)) \<le> int (2 ^ k)" by (rule iffD2[OF of_nat_le_iff])
    then show ?thesis by simp
  qed
  show ?case
  proof (cases i)
    case 0
    have "\<forall>i'. 0 \<le> i' \<and> i' < int (length bs) \<longrightarrow> w mod 2 ^ k \<noteq> (w + 1 + i') mod 2 ^ k"
    proof (intro allI impI)
      fix i' :: int assume h: "0 \<le> i' \<and> i' < int (length bs)"
      have "w mod 2 ^ k \<noteq> (w + (1 + i')) mod 2 ^ k"
        by (rule mod_shift_neq) (use h len in linarith)+
      then show "w mod 2 ^ k \<noteq> (w + 1 + i') mod 2 ^ k" by (simp add: add.assoc)
    qed
    from rx_copy_other[OF this] show ?thesis using 0 by (simp add: mask_mod)
  next
    case (Suc n)
    have l: "length bs \<le> 2 ^ k" "n < length bs" using Cons.prems Suc by auto
    have "rx_copy k (d(w mod 2 ^ k := b)) (w + 1) bs ((w + 1 + int n) mod 2 ^ k) = bs ! n"
      by (rule Cons.IH[OF l])
    moreover have e: "w + int (Suc n) = w + 1 + int n" by simp
    ultimately have "rx_copy k (d(w mod 2 ^ k := b)) (w + 1) bs ((w + int (Suc n)) mod 2 ^ k) = bs ! n"
      by (simp only: e)
    then show ?thesis unfolding Suc by (simp add: mask_mod del: of_nat_Suc)
  qed
qed


lemma receive_largest_dsps:
  "dsps (receive_largest st p len) q =
     (if q = p then (dsps st p)\<lparr>largest := max (largest (dsps st p)) (2 * len)\<rparr> else dsps st q)"
  by (simp add: receive_largest_def Let_def push_bit_eq_mult max_def)

lemma receive_largest_rest:
  "confs (receive_largest st p len) = confs st"
  "Conf_list (receive_largest st p len) = Conf_list st"
  "hw_log (receive_largest st p len) = hw_log st"
  by (simp_all add: receive_largest_def Let_def)

lemma receive_sync_largest_dsps:
  "dsps (receive_sync_largest st p) q =
     (if q = p
      then (dsps st p)\<lparr>largest := (case conf (dsps st p) of None \<Rightarrow> largest (dsps st p)
                                   | Some c \<Rightarrow> max (largest (dsps st p)) (c_largest (confs st c)))\<rparr>
      else dsps st q)"
  by (auto simp add: receive_sync_largest_def Let_def max_def split: option.splits)

lemma receive_sync_largest_confs:
  "confs (receive_sync_largest st p) c =
     (if conf (dsps st p) = Some c
      then (confs st c)\<lparr>c_largest := max (largest (dsps st p)) (c_largest (confs st c))\<rparr>
      else confs st c)"
  by (auto simp add: receive_sync_largest_def Let_def max_def split: option.splits)

lemma receive_sync_largest_rest:
  "Conf_list (receive_sync_largest st p) = Conf_list st"
  "hw_log (receive_sync_largest st p) = hw_log st"
  by (simp_all add: receive_sync_largest_def Let_def split: option.splits)

lemma receive_W_min_loop_cong:
  "(\<And>q. W_rx (dsps st q) = W_rx (dsps st' q)) \<Longrightarrow>
   receive_W_min_loop k st own W ms = receive_W_min_loop k st' own W ms"
  by (induction ms arbitrary: W) simp_all

lemma receive_conf_buff_dsps: "dsps (receive_conf_buff k tab st p data) = dsps st"
  by (simp add: receive_conf_buff_def split: option.splits prod.splits)

lemma receive_conf_buff_confs:
  "c_W_max (confs (receive_conf_buff k tab st p data) c) = c_W_max (confs st c)"
  "c_W_min (confs (receive_conf_buff k tab st p data) c) = c_W_min (confs st c)"
  "mlist (confs (receive_conf_buff k tab st p data) c) = mlist (confs st c)"
  by (simp_all add: receive_conf_buff_def split: option.splits prod.splits)


lemma receive_set_W_min_dsps: "dsps (receive_set_W_min st p W) = dsps st"
  by (simp add: receive_set_W_min_def split: option.splits)

lemma receive_set_W_min_confs:
  "confs (receive_set_W_min st p W) c =
     (if conf (dsps st p) = Some c then (confs st c)\<lparr>c_W_min := W\<rparr> else confs st c)"
  by (simp add: receive_set_W_min_def split: option.splits)

lemma receive_set_W_max_dsps: "dsps (receive_set_W_max st p W) = dsps st"
  by (simp add: receive_set_W_max_def split: option.splits)

lemma receive_set_W_max_confs:
  "confs (receive_set_W_max st p W) c =
     (if conf (dsps st p) = Some c then (confs st c)\<lparr>c_W_max := W\<rparr> else confs st c)"
  by (simp add: receive_set_W_max_def split: option.splits)

lemma receive_conf_buff_largest:
  "c_largest (confs (receive_conf_buff k tab st p data) c) = c_largest (confs st c)"
  by (simp add: receive_conf_buff_def split: option.splits prod.splits)

lemma receive_store_dsps:
  "dsps (receive_store k tab st p data W) q =
     (if q = p
      then (dsps st p)\<lparr>rx_buff := rx_copy k (rx_buff (dsps st p)) (W_rx (dsps st p)) data,
                        W_rx := (W_rx (dsps st p) + int (length data)) mod 2 ^ k\<rparr>
      else dsps st q)"
  by (simp add: receive_store_def Let_def receive_set_W_max_dsps receive_conf_buff_dsps mask_mod)

lemma receive_store_W_max:
  "c_W_max (confs (receive_store k tab st p data W) c) =
     (if conf (dsps st p) = Some c then W else c_W_max (confs st c))"
  by (simp add: receive_store_def Let_def receive_set_W_max_confs receive_conf_buff_dsps
        receive_conf_buff_confs)

lemma receive_store_W_min:
  "c_W_min (confs (receive_store k tab st p data W) c) = c_W_min (confs st c)"
  by (simp add: receive_store_def Let_def receive_set_W_max_confs receive_conf_buff_dsps
        receive_conf_buff_confs)

lemma receive_store_largest:
  "c_largest (confs (receive_store k tab st p data W) c) = c_largest (confs st c)"
  by (simp add: receive_store_def Let_def receive_set_W_max_confs receive_conf_buff_dsps
        receive_conf_buff_largest)

text \<open>The three outcomes of \<^verbatim>\<open>dsp_cmx_receive\<close>, one equation each.\<close>

lemma receive_empty: "data = [] \<Longrightarrow> dsp_cmx_receive k tab st p data = (RxEmpty, st)"
  by (simp add: dsp_cmx_receive_def)

lemma receive_too_large:
  "data \<noteq> [] \<Longrightarrow> CMX_BUFF_HALF k div 4 \<le> int (length data) \<Longrightarrow>
   dsp_cmx_receive k tab st p data = (RxTooLarge, receive_largest st p (int (length data)))"
proof -
  assume a: "data \<noteq> []" "CMX_BUFF_HALF k div 4 \<le> int (length data)"
  then have "\<not> int (length data) < 1" by (cases data) simp_all
  with a show ?thesis by (simp add: dsp_cmx_receive_def Let_def drop_bit_eq_div)
qed

lemma receive_accepted:
  assumes "data \<noteq> []" and "int (length data) < CMX_BUFF_HALF k div 4"
  shows "dsp_cmx_receive k tab st p data =
     (let len = int (length data);
          st2 = receive_sync_largest (receive_largest st p len) p;
          W_min = receive_W_min k st2 p len;
          st3 = receive_set_W_min st2 p W_min;
          W_max = receive_W_max k st3 p W_min
      in if ((W_max - W_min) mod 2 ^ k) \<le> largest (dsps st3 p)
         then (RxStored, receive_store k tab st3 p data W_max)
         else (RxTooFast, st3))"
proof -
  have "\<not> int (length data) < 1" using assms(1) by (cases data) simp_all
  with assms show ?thesis by (simp add: dsp_cmx_receive_def Let_def drop_bit_eq_div mask_mod)
qed

lemmas example_defs = party_def party_conf_def joined_dsp_def idle_dsp_def blank_conf_def
  example_tables_def empty_registry_def

text \<open>
  The two pointers of the guard, written out. \<open>W_min\<close> starts as the channel's write
  pointer after this frame and is lowered, member by member, to the write pointer of
  every other member that is behind it; \<open>W_max\<close> is the conference's \<^verbatim>\<open>W_max\<close>
  when that is ahead of \<open>W_min\<close>, and \<open>W_min\<close> otherwise.
\<close>

lemma receive_W_min_loop_foldl:
  "receive_W_min_loop k st own W ms =
     foldl (\<lambda>W m. if Some (m_node m) \<noteq> own
                       \<and> CMX_BUFF_HALF k \<le> (W_rx (dsps st (m_dsp m)) - W) mod CMX_BUFF_SIZE k
                    then W_rx (dsps st (m_dsp m)) else W) W ms"
  by (induction ms arbitrary: W) (simp_all add: mask_mod CMX_BUFF_SIZE_def)

lemma receive_W_min_explicit:
  "receive_W_min k st p len =
     (case conf (dsps st p) of
        None \<Rightarrow> (W_rx (dsps st p) + len) mod CMX_BUFF_SIZE k
      | Some c \<Rightarrow>
          foldl (\<lambda>W m. if Some (m_node m) \<noteq> member_node (dsps st p)
                            \<and> CMX_BUFF_HALF k \<le> (W_rx (dsps st (m_dsp m)) - W) mod CMX_BUFF_SIZE k
                         then W_rx (dsps st (m_dsp m)) else W)
            ((W_rx (dsps st p) + len) mod CMX_BUFF_SIZE k) (mlist (confs st c)))"
  by (simp add: receive_W_min_def Let_def receive_W_min_loop_foldl mask_mod CMX_BUFF_SIZE_def
        split: option.splits)

lemma receive_W_max_explicit:
  "receive_W_max k st p W =
     (case conf (dsps st p) of
        None \<Rightarrow> W
      | Some c \<Rightarrow> if CMX_BUFF_HALF k \<le> (W - c_W_max (confs st c)) mod CMX_BUFF_SIZE k
                  then c_W_max (confs st c) else W)"
  by (simp add: receive_W_max_def mask_mod CMX_BUFF_SIZE_def split: option.splits)

lemma receive_guard_core:
  assumes "1 \<le> int (length data)" and "int (length data) < drop_bit 2 (CMX_BUFF_HALF k)"
  shows "let len = int (length data);
             W_min = receive_W_min k st p len;
             W_max = receive_W_max k st p W_min;
             lrg = (case conf (dsps st p) of
                      None \<Rightarrow> max (largest (dsps st p)) (2 * len)
                    | Some c \<Rightarrow> max (max (largest (dsps st p)) (2 * len)) (c_largest (confs st c)));
             res = fst (dsp_cmx_receive k tab st p data);
             st' = snd (dsp_cmx_receive k tab st p data)
         in if (W_max - W_min) mod CMX_BUFF_SIZE k > lrg
            then res = RxTooFast
               \<and> (\<forall>q. W_rx (dsps st' q) = W_rx (dsps st q))
               \<and> (\<forall>c. c_W_max (confs st' c) = c_W_max (confs st c))
               \<and> (\<forall>q. rx_buff (dsps st' q) = rx_buff (dsps st q))
               \<and> (\<forall>c. conf_buff (confs st' c) = conf_buff (confs st c))
               \<and> (\<forall>c. conf (dsps st p) = Some c \<longrightarrow> c_W_min (confs st' c) = W_min)
            else res = RxStored
               \<and> (\<forall>i < length data.
                     rx_buff (dsps st' p) ((W_rx (dsps st p) + int i) mod CMX_BUFF_SIZE k) = data ! i)
               \<and> W_rx (dsps st' p) = (W_rx (dsps st p) + len) mod CMX_BUFF_SIZE k
               \<and> (\<forall>c. conf (dsps st p) = Some c \<longrightarrow> c_W_max (confs st' c) = W_max)
               \<and> (\<forall>c. conf (dsps st p) = Some c \<longrightarrow> c_W_min (confs st' c) = W_min)"
proof -
  define len where "len = int (length data)"
  define st2 where "st2 = receive_sync_largest (receive_largest st p len) p"
  define W_min where "W_min = receive_W_min k st p len"
  define W_max where "W_max = receive_W_max k st p W_min"
  define st3 where "st3 = receive_set_W_min st2 p W_min"
  have ne: "data \<noteq> []" using assms(1) by auto
  have lt: "int (length data) < CMX_BUFF_HALF k div 4" using assms(2) by (simp add: drop_bit_eq_div)
  have d2: "\<And>q. W_rx (dsps st2 q) = W_rx (dsps st q)" "\<And>q. rx_buff (dsps st2 q) = rx_buff (dsps st q)"
    "\<And>q. conf (dsps st2 q) = conf (dsps st q)" "\<And>q. member_node (dsps st2 q) = member_node (dsps st q)"
    by (simp_all add: st2_def receive_sync_largest_dsps receive_largest_dsps)
  have c2: "\<And>c. mlist (confs st2 c) = mlist (confs st c)" "\<And>c. c_W_max (confs st2 c) = c_W_max (confs st c)"
     "\<And>c. conf_buff (confs st2 c) = conf_buff (confs st c)"
    by (simp_all add: st2_def receive_sync_largest_confs receive_largest_rest receive_largest_dsps)
  have wmin: "receive_W_min k st2 p len = W_min"
    using receive_W_min_loop_cong[of st2 st, OF d2(1)]
    by (simp add: W_min_def receive_W_min_def Let_def d2 c2 split: option.splits)
  have d3: "dsps st3 = dsps st2" by (simp add: st3_def receive_set_W_min_dsps)
  have c3: "\<And>c. c_W_max (confs st3 c) = c_W_max (confs st c)"
     "\<And>c. conf_buff (confs st3 c) = conf_buff (confs st c)"
    by (simp_all add: st3_def receive_set_W_min_confs c2)
  have m3: "\<And>c. conf (dsps st p) = Some c \<Longrightarrow> c_W_min (confs st3 c) = W_min"
    by (simp add: st3_def receive_set_W_min_confs d2)
  have wmax: "receive_W_max k st3 p W_min = W_max"
    by (simp add: W_max_def receive_W_max_def d3 d2 c3 split: option.splits)
  have lrg: "largest (dsps st3 p) = (case conf (dsps st p) of
                      None \<Rightarrow> max (largest (dsps st p)) (2 * len)
                    | Some c \<Rightarrow> max (max (largest (dsps st p)) (2 * len)) (c_largest (confs st c)))"
    by (simp add: d3 st2_def receive_sync_largest_dsps receive_largest_dsps receive_largest_rest
          split: option.splits)
  have dl: "length data \<le> 2 ^ k"
  proof -
    have "int (length data) < 2 ^ k div 8" using assms(2) by (simp only: half_shift)
    also have "\<dots> \<le> 2 ^ k"
    proof -
      have "\<And>x::int. 0 \<le> x \<Longrightarrow> x div 8 \<le> x" by presburger
      then show ?thesis by simp
    qed
    finally have "int (length data) < int (2 ^ k)" by simp
    then show ?thesis by (simp only: of_nat_less_iff)
  qed
  have eq: "dsp_cmx_receive k tab st p data =
       (if ((W_max - W_min) mod 2 ^ k) \<le> largest (dsps st3 p)
         then (RxStored, receive_store k tab st3 p data W_max)
         else (RxTooFast, st3))"
    using receive_accepted[OF ne lt, of tab st p] wmin wmax
    by (simp add: Let_def flip: len_def st2_def st3_def)
  show ?thesis
  proof (cases "((W_max - W_min) mod 2 ^ k) \<le> largest (dsps st3 p)")
    case True
    then have r: "dsp_cmx_receive k tab st p data = (RxStored, receive_store k tab st3 p data W_max)"
      using eq by simp
    have g: "\<not> (W_max - W_min) mod CMX_BUFF_SIZE k > (case conf (dsps st p) of
                      None \<Rightarrow> max (largest (dsps st p)) (2 * len)
                    | Some c \<Rightarrow> max (max (largest (dsps st p)) (2 * len)) (c_largest (confs st c)))"
      using True by (simp add: lrg CMX_BUFF_SIZE_def)
    have "\<forall>i < length data.
            rx_buff (dsps (receive_store k tab st3 p data W_max) p)
              ((W_rx (dsps st p) + int i) mod CMX_BUFF_SIZE k) = data ! i"
      by (simp add: receive_store_dsps d3 d2 CMX_BUFF_SIZE_def rx_copy_stored[OF dl])
    moreover have "W_rx (dsps (receive_store k tab st3 p data W_max) p)
            = (W_rx (dsps st p) + len) mod CMX_BUFF_SIZE k"
      by (simp add: receive_store_dsps d3 d2 CMX_BUFF_SIZE_def len_def)
    moreover have "\<forall>c. conf (dsps st p) = Some c \<longrightarrow>
            c_W_max (confs (receive_store k tab st3 p data W_max) c) = W_max"
      by (simp add: receive_store_W_max d3 d2)
    moreover have "\<forall>c. conf (dsps st p) = Some c \<longrightarrow>
            c_W_min (confs (receive_store k tab st3 p data W_max) c) = W_min"
      by (simp add: receive_store_W_min m3)
    ultimately show ?thesis
      using g unfolding Let_def r fst_conv snd_conv
      by (simp only: len_def[symmetric] W_min_def[symmetric] W_max_def[symmetric] if_False simp_thms) blast?
  next
    case False
    then have r: "dsp_cmx_receive k tab st p data = (RxTooFast, st3)"
      using eq by simp
    have g: "(W_max - W_min) mod CMX_BUFF_SIZE k > (case conf (dsps st p) of
                      None \<Rightarrow> max (largest (dsps st p)) (2 * len)
                    | Some c \<Rightarrow> max (max (largest (dsps st p)) (2 * len)) (c_largest (confs st c)))"
      using False by (simp add: lrg CMX_BUFF_SIZE_def)
    have "(\<forall>q. W_rx (dsps st3 q) = W_rx (dsps st q))
               \<and> (\<forall>c. c_W_max (confs st3 c) = c_W_max (confs st c))
               \<and> (\<forall>q. rx_buff (dsps st3 q) = rx_buff (dsps st q))
               \<and> (\<forall>c. conf_buff (confs st3 c) = conf_buff (confs st c))
               \<and> (\<forall>c. conf (dsps st p) = Some c \<longrightarrow> c_W_min (confs st3 c) = W_min)"
      by (simp add: d3 d2 c3 m3)
    then show ?thesis
      using g unfolding Let_def r fst_conv snd_conv
      by (simp only: len_def[symmetric] W_min_def[symmetric] W_max_def[symmetric] if_True simp_thms) blast?
  qed
qed

text \<open>
  Claim C2, as amended. For a frame that has passed the length checks,
  \<^verbatim>\<open>dsp_cmx_receive\<close> drops it exactly when \<open>(W_max - W_min) mod BUFF_SIZE\<close>
  exceeds the channel's \<^verbatim>\<open>largest\<close> (after the update of step 2). A dropped frame
  leaves every write pointer \<^verbatim>\<open>W_rx\<close>, every \<^verbatim>\<open>W_max\<close>, every rx buffer and
  every conference buffer as they were. An accepted frame is stored byte by byte from
  \<^verbatim>\<open>W_rx\<close> on, the channel's \<^verbatim>\<open>W_rx\<close> advances by the length modulo the ring
  size, and the conference's \<^verbatim>\<open>W_max\<close> becomes the new \<open>W_max\<close>. In both cases
  the conference's \<^verbatim>\<open>W_min\<close> becomes the new \<open>W_min\<close>: it is stored before the
  guard ("store for dsp_cmx_send").
\<close>

theorem receive_overflow_guard:
  assumes "1 \<le> int (length data)" and "int (length data) < drop_bit 2 (CMX_BUFF_HALF k)"
  shows "let d = dsps st p;
             len = int (length data);
             W_min = (case conf d of
                        None \<Rightarrow> (W_rx d + len) mod CMX_BUFF_SIZE k
                      | Some c \<Rightarrow>
                          foldl (\<lambda>W m. if Some (m_node m) \<noteq> member_node d
                                            \<and> CMX_BUFF_HALF k
                                                \<le> (W_rx (dsps st (m_dsp m)) - W) mod CMX_BUFF_SIZE k
                                         then W_rx (dsps st (m_dsp m)) else W)
                            ((W_rx d + len) mod CMX_BUFF_SIZE k) (mlist (confs st c)));
             W_max = (case conf d of
                        None \<Rightarrow> W_min
                      | Some c \<Rightarrow>
                          if CMX_BUFF_HALF k \<le> (W_min - c_W_max (confs st c)) mod CMX_BUFF_SIZE k
                          then c_W_max (confs st c) else W_min);
             lrg = (case conf d of
                      None \<Rightarrow> max (largest d) (2 * len)
                    | Some c \<Rightarrow> max (max (largest d) (2 * len)) (c_largest (confs st c)));
             res = fst (dsp_cmx_receive k tab st p data);
             st' = snd (dsp_cmx_receive k tab st p data)
         in if (W_max - W_min) mod CMX_BUFF_SIZE k > lrg
            then res = RxTooFast
               \<and> (\<forall>q. W_rx (dsps st' q) = W_rx (dsps st q))
               \<and> (\<forall>c. c_W_max (confs st' c) = c_W_max (confs st c))
               \<and> (\<forall>q. rx_buff (dsps st' q) = rx_buff (dsps st q))
               \<and> (\<forall>c. conf_buff (confs st' c) = conf_buff (confs st c))
               \<and> (\<forall>c. conf d = Some c \<longrightarrow> c_W_min (confs st' c) = W_min)
            else res = RxStored
               \<and> (\<forall>i < length data.
                     rx_buff (dsps st' p) ((W_rx d + int i) mod CMX_BUFF_SIZE k) = data ! i)
               \<and> W_rx (dsps st' p) = (W_rx d + len) mod CMX_BUFF_SIZE k
               \<and> (\<forall>c. conf d = Some c \<longrightarrow> c_W_max (confs st' c) = W_max)
               \<and> (\<forall>c. conf d = Some c \<longrightarrow> c_W_min (confs st' c) = W_min)"
  using receive_guard_core [OF assms, of st p tab]
  unfolding Let_def receive_W_min_explicit receive_W_max_explicit .

theorem receive_overflow_guard_witness:
  "fst (dsp_cmx_receive 14 example_tables far_ahead 1 (replicate 2047 0)) = RxTooFast
   \<and> W_rx (dsps far_ahead 1) = 8188
   \<and> W_rx (dsps (snd (dsp_cmx_receive 14 example_tables far_ahead 1 (replicate 2047 0))) 1) = 8188
   \<and> c_W_max (confs (snd (dsp_cmx_receive 14 example_tables far_ahead 1 (replicate 2047 0))) 1) = 0
   \<and> fst (dsp_cmx_receive 14 example_tables (party [1, 2]) 1 [1, 2, 3]) = RxStored
   \<and> W_rx (dsps (snd (dsp_cmx_receive 14 example_tables (party [1, 2]) 1 [1, 2, 3])) 1) = 3
   \<and> c_W_max (confs (snd (dsp_cmx_receive 14 example_tables (party [1, 2]) 1 [1, 2, 3])) 1) = 0
   \<and> c_W_min (confs (snd (dsp_cmx_receive 14 example_tables (party [1, 2]) 1 [1, 2, 3])) 1) = 0"
proof -
  have h1: "1 \<le> int (length [1, 2, 3 :: byte])" by simp
  have h2: "int (length [1, 2, 3 :: byte]) < drop_bit 2 (CMX_BUFF_HALF 14)"
    by (simp add: half_shift)
  have g1: "1 \<le> int (length (replicate 2047 (0 :: byte)))" by simp
  have g2: "int (length (replicate 2047 (0 :: byte))) < drop_bit 2 (CMX_BUFF_HALF 14)"
    by (simp add: half_shift)
  have stored: "fst (dsp_cmx_receive 14 example_tables (party [1, 2]) 1 [1, 2, 3]) = RxStored
   \<and> W_rx (dsps (snd (dsp_cmx_receive 14 example_tables (party [1, 2]) 1 [1, 2, 3])) 1) = 3
   \<and> c_W_max (confs (snd (dsp_cmx_receive 14 example_tables (party [1, 2]) 1 [1, 2, 3])) 1) = 0
   \<and> c_W_min (confs (snd (dsp_cmx_receive 14 example_tables (party [1, 2]) 1 [1, 2, 3])) 1) = 0"
    using receive_overflow_guard [OF h1 h2, of "party [1, 2]" 1 example_tables]
    by (simp add: Let_def CMX_BUFF_SIZE_def CMX_BUFF_HALF_def example_defs)
  have dropped: "fst (dsp_cmx_receive 14 example_tables far_ahead 1 (replicate 2047 0)) = RxTooFast
   \<and> W_rx (dsps far_ahead 1) = 8188
   \<and> W_rx (dsps (snd (dsp_cmx_receive 14 example_tables far_ahead 1 (replicate 2047 0))) 1) = 8188
   \<and> c_W_max (confs (snd (dsp_cmx_receive 14 example_tables far_ahead 1 (replicate 2047 0))) 1) = 0"
    using receive_overflow_guard [OF g1 g2, of far_ahead 1 example_tables]
    by (simp add: Let_def CMX_BUFF_SIZE_def CMX_BUFF_HALF_def far_ahead_def example_defs)
  from dropped stored show ?thesis by simp
qed

text \<open>
  The claim as stated ("the frame is dropped and no pointer is advanced") fails.
  Channel 1 of a pair is four frames ahead of channel 2, which has received nothing; its
  fifth frame of 2047 bytes passes the length checks and is dropped by the guard, and
  the call moves the conference's \<^verbatim>\<open>W_min\<close> from 0 to 10235.
\<close>

theorem receive_overflow_guard_counterexample:
  "1 \<le> int (length (replicate 2047 (0 :: byte)))
   \<and> int (length (replicate 2047 (0 :: byte))) < drop_bit 2 (CMX_BUFF_HALF 14)
   \<and> conf (dsps far_ahead 1) = Some 1
   \<and> fst (dsp_cmx_receive 14 example_tables far_ahead 1 (replicate 2047 0)) = RxTooFast
   \<and> c_W_min (confs far_ahead 1) = 0
   \<and> c_W_min (confs (snd (dsp_cmx_receive 14 example_tables far_ahead 1 (replicate 2047 0))) 1)
       = 10235"
proof -
  have g1: "1 \<le> int (length (replicate 2047 (0 :: byte)))" by simp
  have g2: "int (length (replicate 2047 (0 :: byte))) < drop_bit 2 (CMX_BUFF_HALF 14)"
    by (simp add: half_shift)
  have "fst (dsp_cmx_receive 14 example_tables far_ahead 1 (replicate 2047 0)) = RxTooFast
   \<and> c_W_min (confs (snd (dsp_cmx_receive 14 example_tables far_ahead 1 (replicate 2047 0))) 1)
       = 10235"
    using receive_guard_core [OF g1 g2, of far_ahead 1 example_tables]
    by (simp add: Let_def receive_W_min_def receive_W_max_def mask_mod CMX_BUFF_SIZE_def
          CMX_BUFF_HALF_def far_ahead_def example_defs)
  moreover have "conf (dsps far_ahead 1) = Some 1" "c_W_min (confs far_ahead 1) = 0"
    by (simp_all add: far_ahead_def example_defs)
  ultimately show ?thesis using g1 g2 by simp
qed

text \<open>
  Claim C5, as amended. The frame is rejected exactly when its length is 0 or at least
  \<open>BUFF_HALF / 4\<close>. The update of \<^verbatim>\<open>largest\<close> comes before the size check:
  a frame dropped for its size raises the channel's \<^verbatim>\<open>largest\<close> to the
  maximum of its old value and twice the length, and changes nothing else. Only a
  frame that passes the check propagates \<^verbatim>\<open>largest\<close> to the conference.
\<close>

theorem receive_size_check:
  "let len = int (length data);
       res = fst (dsp_cmx_receive k tab st p data);
       st' = snd (dsp_cmx_receive k tab st p data);
       lrg = max (largest (dsps st p)) (2 * len)
   in (res = RxEmpty \<longleftrightarrow> len = 0)
    \<and> (res = RxTooLarge \<longleftrightarrow> 1 \<le> len \<and> CMX_BUFF_HALF k div 4 \<le> len)
    \<and> (res = RxEmpty \<longrightarrow> st' = st)
    \<and> (res = RxTooLarge \<longrightarrow> st' = st\<lparr>dsps := (dsps st)(p := (dsps st p)\<lparr>largest := lrg\<rparr>)\<rparr>)
    \<and> (res \<noteq> RxEmpty \<and> res \<noteq> RxTooLarge \<longrightarrow>
         (case conf (dsps st p) of
            None \<Rightarrow> largest (dsps st' p) = lrg
          | Some c \<Rightarrow> largest (dsps st' p) = max lrg (c_largest (confs st c))
                    \<and> c_largest (confs st' c) = max lrg (c_largest (confs st c))))"
proof -
  define len where "len = int (length data)"
  define lrg where "lrg = max (largest (dsps st p)) (2 * len)"
  have big: "receive_largest st p len = st\<lparr>dsps := (dsps st)(p := (dsps st p)\<lparr>largest := lrg\<rparr>)\<rparr>"
  proof (cases "largest (dsps st p) < 2 * len")
    case True
    then show ?thesis
      by (simp add: receive_largest_def Let_def push_bit_eq_mult max_def mult.commute lrg_def)
  next
    case False
    then have "lrg = largest (dsps st p)" by (simp add: max_def lrg_def)
    then show ?thesis using False
      by (simp add: receive_largest_def Let_def push_bit_eq_mult mult.commute)
  qed
  consider (empty) "data = []"
    | (large) "data \<noteq> []" "CMX_BUFF_HALF k div 4 \<le> len"
    | (pass) "data \<noteq> []" "len < CMX_BUFF_HALF k div 4"
    by fastforce
  then show ?thesis
  proof cases
    case empty
    then show ?thesis by (simp add: receive_empty)
  next
    case large
    then have l1: "1 \<le> len" by (cases data) (simp_all add: len_def)
    have r: "dsp_cmx_receive k tab st p data = (RxTooLarge, receive_largest st p len)"
      using large receive_too_large[of data k tab st p] by (simp add: len_def)
    show ?thesis
      unfolding Let_def r fst_conv snd_conv big
      using large l1 by (simp add: len_def lrg_def)
  next
    case pass
    then have l1: "1 \<le> len" "len \<noteq> 0" by (cases data; simp add: len_def)+
    define st2 where "st2 = receive_sync_largest (receive_largest st p len) p"
    define st3 where "st3 = receive_set_W_min st2 p (receive_W_min k st2 p len)"
    define W_max where "W_max = receive_W_max k st3 p (receive_W_min k st2 p len)"
    have d3: "dsps st3 = dsps st2" by (simp add: st3_def receive_set_W_min_dsps)
    have cf: "conf (dsps st2 p) = conf (dsps st p)"
      by (simp add: st2_def receive_sync_largest_dsps receive_largest_dsps)
    have lg: "largest (dsps st2 p) = (case conf (dsps st p) of None \<Rightarrow> lrg
                | Some c \<Rightarrow> max lrg (c_largest (confs st c)))"
      by (simp add: st2_def lrg_def receive_sync_largest_dsps receive_largest_dsps receive_largest_rest
            split: option.splits)
    have cl: "\<And>c. conf (dsps st p) = Some c \<Longrightarrow> c_largest (confs st3 c) = max lrg (c_largest (confs st c))"
      by (simp add: st3_def st2_def lrg_def receive_set_W_min_confs receive_sync_largest_confs
            receive_sync_largest_dsps receive_largest_dsps receive_largest_rest)
    have "dsp_cmx_receive k tab st p data = (RxStored, receive_store k tab st3 p data W_max)
        \<or> dsp_cmx_receive k tab st p data = (RxTooFast, st3)"
      using receive_accepted[of data k tab st p] pass
      by (simp add: Let_def flip: len_def st2_def st3_def W_max_def)
    then show ?thesis
    proof
      assume r: "dsp_cmx_receive k tab st p data = (RxStored, receive_store k tab st3 p data W_max)"
      show ?thesis
        unfolding Let_def r fst_conv snd_conv
        using pass l1
        by (simp add: receive_store_dsps receive_store_largest d3 lg cl cf
              flip: len_def lrg_def split: option.splits)
    next
      assume r: "dsp_cmx_receive k tab st p data = (RxTooFast, st3)"
      show ?thesis
        unfolding Let_def r fst_conv snd_conv
        using pass l1
        by (simp add: d3 lg cl cf flip: len_def lrg_def split: option.splits)
    qed
  qed
qed

theorem receive_size_check_witness:
  "fst (dsp_cmx_receive 14 example_tables (party [1, 2]) 1 (replicate 2100 0)) = RxTooLarge
   \<and> largest (dsps (snd (dsp_cmx_receive 14 example_tables (party [1, 2]) 1 (replicate 2100 0))) 1) = 4200
   \<and> fst (dsp_cmx_receive 14 example_tables (party [1, 2]) 1 []) = RxEmpty"
  using receive_size_check [of "replicate 2100 0" 14 example_tables "party [1, 2]" 1]
    receive_size_check [of "[]" 14 example_tables "party [1, 2]" 1]
  by (simp add: Let_def CMX_BUFF_HALF_def example_defs)

text \<open>
  The claim as stated fails for a frame of exactly \<open>BUFF_HALF / 4\<close> bytes: it is
  rejected, and the rejected frame has changed \<^verbatim>\<open>largest\<close>.
\<close>

theorem receive_size_check_counterexample:
  "int (length (replicate 2048 (0 :: byte))) \<le> CMX_BUFF_HALF 14 div 4
   \<and> fst (dsp_cmx_receive 14 example_tables (party [1, 2]) 1 (replicate 2048 0)) = RxTooLarge
   \<and> largest (dsps (party [1, 2]) 1) = 0
   \<and> largest (dsps (snd (dsp_cmx_receive 14 example_tables (party [1, 2]) 1 (replicate 2048 0))) 1) = 4096"
  by (simp add: receive_too_large receive_largest_dsps CMX_BUFF_HALF_def example_defs)

subsection \<open>The example states are reachable\<close>

text \<open>Three channels join conference 1, one call of \<^verbatim>\<open>dsp_cmx\<close> each.\<close>

lemma join1: "dsp_cmx example_tables empty_registry 1 (Some 1) (Some 1) = Some (OK, party [1])"
  by (simp add: dsp_cmx_def add_to_conf_def dsp_cmx_search_conf_def
      dsp_cmx_new_conf_def two_members_def dsp_cmx_add_conf_member_def Let_def conf_next_def
      silence_def example_defs fun_eq_iff)

lemma join2: "dsp_cmx example_tables (party [1]) 2 (Some 1) (Some 2) = Some (OK, party [1, 2])"
  by (simp add: dsp_cmx_def add_to_conf_def dsp_cmx_search_conf_def
      dsp_cmx_new_conf_def two_members_def dsp_cmx_add_conf_member_def Let_def conf_next_def
      silence_def example_defs fun_eq_iff)

lemma join3: "dsp_cmx example_tables (party [1, 2]) 3 (Some 1) (Some 3) = Some (OK, party [1, 2, 3])"
  by (simp add: dsp_cmx_def add_to_conf_def dsp_cmx_search_conf_def
      dsp_cmx_new_conf_def two_members_def dsp_cmx_add_conf_member_def Let_def conf_next_def
      silence_def example_defs fun_eq_iff)

subsection \<open>Evaluations of the conference code\<close>

lemma receive_Conf_list:
  "Conf_list (receive_set_W_min st p W) = Conf_list st"
  "Conf_list (receive_set_W_max st p W) = Conf_list st"
  by (simp_all add: receive_set_W_min_def receive_set_W_max_def split: option.splits)

lemma receive_conf_buff_last:
  "conf (dsps st p) = Some c \<Longrightarrow> conf_next st c = None \<Longrightarrow> receive_conf_buff k tab st p data = st"
  by (simp add: receive_conf_buff_def)

lemma receive_store_last:
  assumes "conf (dsps st p) = Some c" and "conf_next st c = None"
  shows "conf_buff (confs (receive_store k tab st p data W) c') = conf_buff (confs st c')"
proof -
  let ?st4 = "st\<lparr>dsps := (dsps st)(p := (dsps st p)
                   \<lparr>rx_buff := rx_copy k (rx_buff (dsps st p)) (W_rx (dsps st p)) data\<rparr>)\<rparr>"
  have "receive_conf_buff k tab ?st4 p data = ?st4"
    by (rule receive_conf_buff_last[of _ _ c]) (use assms in \<open>simp_all add: conf_next_def\<close>)
  then show ?thesis
    by (simp add: receive_store_def Let_def receive_set_W_max_confs)
qed

text \<open>
  Claim C3 says that an accepted frame is mixed into \<^verbatim>\<open>conf_buff\<close> exactly
  when the conference has three or more members. The source tests
  \<^verbatim>\<open>conf->next->next\<close>, the chain of conferences. Here conference 1 has three
  members and is alone in the registry: channel 1 receives the sample 5, the frame
  is stored, and the conference buffer is left as it was.
\<close>

theorem receive_conf_buff_follows_registry:
  "length (mlist (confs (party [1, 2, 3]) 1)) = 3
   \<and> fst (dsp_cmx_receive 14 example_tables (party [1, 2, 3]) 1 [5]) = RxStored
   \<and> decode_law example_tables (dsps (party [1, 2, 3]) 1) 5 = 5
   \<and> conf_buff (confs (snd (dsp_cmx_receive 14 example_tables (party [1, 2, 3]) 1 [5])) 1)
       = conf_buff (confs (party [1, 2, 3]) 1)"
proof -
  let ?st = "party [1, 2, 3]"
  let ?st2 = "receive_sync_largest (receive_largest ?st 1 (int (length [5 :: byte]))) 1"
  let ?W = "receive_W_min 14 ?st2 1 (int (length [5 :: byte]))"
  let ?st3 = "receive_set_W_min ?st2 1 ?W"
  have len: "[5 :: byte] \<noteq> []" "int (length [5 :: byte]) < CMX_BUFF_HALF 14 div 4"
    by (simp_all add: CMX_BUFF_HALF_def)
  have w: "?W = 0"
    by (simp add: receive_W_min_def Let_def receive_sync_largest_dsps receive_sync_largest_confs
          receive_largest_dsps receive_largest_rest mask_mod CMX_BUFF_HALF_def example_defs)
  have c3: "conf (dsps ?st3 1) = Some 1"
    by (simp add: receive_set_W_min_dsps receive_sync_largest_dsps receive_largest_dsps example_defs)
  have n3: "conf_next ?st3 1 = None"
    by (simp add: conf_next_def receive_Conf_list receive_sync_largest_rest receive_largest_rest
          example_defs)
  have b3: "conf_buff (confs ?st3 1) = conf_buff (confs ?st 1)"
    by (simp add: receive_set_W_min_confs receive_sync_largest_confs receive_largest_rest)
  have r: "dsp_cmx_receive 14 example_tables ?st 1 [5]
             = (RxStored, receive_store 14 example_tables ?st3 1 [5] 0)"
    unfolding receive_accepted[OF len] Let_def w
    by (simp add: receive_W_max_def receive_set_W_min_dsps receive_set_W_min_confs
          receive_sync_largest_dsps receive_sync_largest_confs receive_largest_dsps
          receive_largest_rest mask_mod CMX_BUFF_HALF_def example_defs)
  show ?thesis
    unfolding r fst_conv snd_conv receive_store_last[OF c3 n3] b3
    by (simp add: decode_law_def example_defs)
qed

text \<open>
  Claim C6 says that adding a member zeroes \<^verbatim>\<open>conf_buff\<close> exactly when the
  member count after the append is 3. The source zeroes when the list after the append
  has exactly two nodes: the third member leaves the buffer as it was, the second one
  zeroes it.
\<close>

theorem add_conf_member_zeroes_on_second:
  "(case dsp_cmx_add_conf_member example_tables (with_mix (party [1, 2])) (Some 3) (Some 1) (Some 3) of
      Inr st \<Rightarrow> length (mlist (confs st 1)) = 3 \<and> conf_buff (confs st 1) 0 = 7
    | Inl e \<Rightarrow> False)
   \<and> (case dsp_cmx_add_conf_member example_tables (with_mix (party [1])) (Some 2) (Some 1) (Some 2) of
      Inr st \<Rightarrow> length (mlist (confs st 1)) = 2 \<and> conf_buff (confs st 1) 0 = 0
    | Inl e \<Rightarrow> False)"
  by (simp add: dsp_cmx_add_conf_member_def Let_def with_mix_def example_defs)

text \<open>
  Claim C7 says that the add that makes a conference of two members on one hardware
  id enables the crossconnect, also when the conference is the only one of the registry.
  The source returns before the classifier whenever \<^verbatim>\<open>conf->next\<close> is
  \<^verbatim>\<open>NULL\<close>: channel 2 joins channel 1, the classifier would answer 0
  (crossconnect), and yet no message is sent and the solution stays \<open>-1\<close>.
\<close>

theorem add_second_member_no_crossconnect:
  "dsp_cmx example_tables (party [1]) 2 (Some 1) (Some 2) = Some (OK, party [1, 2])
   \<and> map m_dsp (mlist (confs (party [1, 2]) 1)) = [1, 2]
   \<and> hfc_id (dsps (party [1, 2]) 1) = 7 \<and> hfc_id (dsps (party [1, 2]) 2) = 7
   \<and> dsp_cmx_hfc (party [1, 2]) (Some 1) = Some 0
   \<and> c_solution (confs (party [1, 2]) 1) = - 1
   \<and> hw_log (party [1, 2]) = []"
  unfolding join2
  by (simp add: dsp_cmx_hfc_def example_defs)

text \<open>The final loop of \<^verbatim>\<open>dsp_cmx_hfc\<close> returns only when \<open>unit > 8\<close> or \<open>i \<ge> 8\<close>.\<close>

lemma hfc_free_unit_Some:
  assumes "hfc_free_unit freeunits unit i = Some y"
  shows "unit > 8 \<or> i \<ge> 8"
proof (rule hfc_free_unit.raw_induct[where P = "\<lambda>fu u j y. u > 8 \<or> j \<ge> 8", OF _ assms])
  fix f :: "int list \<Rightarrow> int \<Rightarrow> int \<Rightarrow> int option" and fu u j z
  assume ih: "\<And>fu u j y. f fu u j = Some y \<Longrightarrow> u > 8 \<or> j \<ge> 8"
    and eq: "(if j < 8 then if 8 < u then if fu ! nat j = 0 then Some (j + 1) else f fu u (j + 1)
               else f fu u j else Some (- 1)) = Some z"
  show "u > 8 \<or> j \<ge> 8"
  proof (cases "j < 8 \<and> \<not> 8 < u")
    case True
    with eq have "f fu u j = Some z" by simp
    from ih[OF this] show ?thesis .
  next
    case False
    then show ?thesis by auto
  qed
qed

lemma hfc_free_unit_None: "i < 8 \<Longrightarrow> unit \<le> 8 \<Longrightarrow> hfc_free_unit freeunits unit i = None"
proof (cases "hfc_free_unit freeunits unit i")
  case None
  then show ?thesis by simp
next
  case (Some y)
  assume "i < 8" "unit \<le> 8"
  with hfc_free_unit_Some[OF Some] show ?thesis by simp
qed

text \<open>
  Claim C8 says that for three or more members on one hardware id the classifier
  returns the lowest free unit. The source has already returned when \<open>unit > 8\<close>,
  so the body of the final loop never runs and \<open>i\<close> stays 0: for three members
  with no unit taken the function does not return.
\<close>

theorem hfc_conference_never_returns:
  "map m_dsp (mlist (confs (party [1, 2, 3]) 1)) = [1, 2, 3]
   \<and> hfc_id (dsps (party [1, 2, 3]) 1) = 7 \<and> hfc_id (dsps (party [1, 2, 3]) 2) = 7
   \<and> hfc_id (dsps (party [1, 2, 3]) 3) = 7
   \<and> dsp_cmx_hfc (party [1, 2, 3]) (Some 1) = None"
  by (simp add: dsp_cmx_hfc_def hfc_free_unit_None example_defs)

text \<open>
  Claim C4 says that after every entry point no member's \<^verbatim>\<open>W_rx\<close> is ahead of
  the conference's \<^verbatim>\<open>W_max\<close>. \<^verbatim>\<open>dsp_cmx_receive\<close> takes \<open>W_max\<close> as the
  later of the old \<^verbatim>\<open>W_max\<close> and the new \<^verbatim>\<open>W_min\<close>, not of the writer's new
  pointer: channels 1 and 2 join, channel 1 receives 10 bytes, its \<^verbatim>\<open>W_rx\<close> is 10
  and \<^verbatim>\<open>W_max\<close> is still 0, so \<open>(W_max - W_rx) mod BUFF_SIZE\<close> is not below
  \<^verbatim>\<open>BUFF_HALF\<close>.
\<close>

theorem receive_leaves_W_max_behind:
  "dsp_cmx example_tables empty_registry 1 (Some 1) (Some 1) = Some (OK, party [1])
   \<and> dsp_cmx example_tables (party [1]) 2 (Some 1) (Some 2) = Some (OK, party [1, 2])
   \<and> fst (dsp_cmx_receive 14 example_tables (party [1, 2]) 1 (replicate 10 0)) = RxStored
   \<and> conf (dsps (snd (dsp_cmx_receive 14 example_tables (party [1, 2]) 1 (replicate 10 0))) 1) = Some 1
   \<and> W_rx (dsps (snd (dsp_cmx_receive 14 example_tables (party [1, 2]) 1 (replicate 10 0))) 1) = 10
   \<and> c_W_max (confs (snd (dsp_cmx_receive 14 example_tables (party [1, 2]) 1 (replicate 10 0))) 1) = 0
   \<and> (0 - 10) mod CMX_BUFF_SIZE 14 \<ge> CMX_BUFF_HALF 14"
proof -
  let ?st = "party [1, 2]"
  let ?d = "replicate 10 (0 :: byte)"
  let ?st2 = "receive_sync_largest (receive_largest ?st 1 (int (length ?d))) 1"
  let ?W = "receive_W_min 14 ?st2 1 (int (length ?d))"
  let ?st3 = "receive_set_W_min ?st2 1 ?W"
  have len: "?d \<noteq> []" "int (length ?d) < CMX_BUFF_HALF 14 div 4"
    by (simp_all add: CMX_BUFF_HALF_def)
  have w: "?W = 0"
    by (simp add: receive_W_min_def Let_def receive_sync_largest_dsps receive_sync_largest_confs
          receive_largest_dsps receive_largest_rest mask_mod CMX_BUFF_HALF_def example_defs)
  have r: "dsp_cmx_receive 14 example_tables ?st 1 ?d
             = (RxStored, receive_store 14 example_tables ?st3 1 ?d 0)"
    unfolding receive_accepted[OF len] Let_def w
    by (simp add: receive_W_max_def receive_set_W_min_dsps receive_set_W_min_confs
          receive_sync_largest_dsps receive_sync_largest_confs receive_largest_dsps
          receive_largest_rest mask_mod CMX_BUFF_HALF_def example_defs)
  show ?thesis
    unfolding r fst_conv snd_conv join1 join2
    by (simp add: receive_store_dsps receive_store_W_max receive_set_W_min_dsps
          receive_sync_largest_dsps receive_largest_dsps CMX_BUFF_HALF_def CMX_BUFF_SIZE_def
          example_defs)
qed

subsection \<open>The send path\<close>

text \<open>
  One step of a read pointer towards its limit shortens the distance by one; both loops
  of \<^verbatim>\<open>dsp_cmx_send\<close> therefore end, and together they write as many bytes as
  the distance from \<open>r\<close> to \<open>rr\<close>.
\<close>

lemma ring_step:
  fixes r rr :: int
  assumes "0 \<le> r" "r < 2 ^ k" "0 \<le> rr" "rr < 2 ^ k" "r \<noteq> rr"
  shows "(rr - (r + 1) mod 2 ^ k) mod 2 ^ k = (rr - r) mod 2 ^ k - 1"
    and "0 < (rr - r) mod 2 ^ k"
proof -
  have ne: "(rr - r) mod 2 ^ k \<noteq> 0"
  proof
    assume z: "(rr - r) mod 2 ^ k = 0"
    have "rr mod 2 ^ k = r mod 2 ^ k"
      using z by (metis mod_eq_dvd_iff mod_0_imp_dvd)
    then show False using assms by simp
  qed
  have "0 \<le> (rr - r) mod 2 ^ k" by simp
  with ne show pos: "0 < (rr - r) mod 2 ^ k" by linarith
  have lt: "(rr - r) mod 2 ^ k < 2 ^ k" by simp
  have "(rr - (r + 1) mod 2 ^ k) mod 2 ^ k = (rr - (r + 1)) mod 2 ^ k"
    by (simp add: mod_diff_right_eq)
  also have "\<dots> = ((rr - r) - 1) mod 2 ^ k" by (simp add: algebra_simps)
  also have "\<dots> = ((rr - r) mod 2 ^ k - 1) mod 2 ^ k" by (simp add: mod_diff_left_eq)
  also have "\<dots> = (rr - r) mod 2 ^ k - 1"
    using pos lt by (intro mod_pos_pos_trivial) linarith+
  finally show "(rr - (r + 1) mod 2 ^ k) mod 2 ^ k = (rr - r) mod 2 ^ k - 1" .
qed

lemma send_rx_loop_total:
  assumes "0 \<le> r" "r < 2 ^ k" "0 \<le> rr" "rr < 2 ^ k"
  shows "\<exists>d'. send_rx_loop k g r rr d = Some d'
            \<and> int (length d') = int (length d) + (rr - r) mod 2 ^ k"
  using assms
proof (induction "nat ((rr - r) mod 2 ^ k)" arbitrary: r d)
  case 0
  have "r = rr"
  proof (rule ccontr)
    assume "r \<noteq> rr"
    from ring_step(2)[OF "0.prems"(1,2,3,4) this] "0.hyps" show False by simp
  qed
  then show ?case by (subst send_rx_loop.simps) simp
next
  case (Suc n)
  have ne: "r \<noteq> rr" using Suc.hyps(2) by auto
  let ?r = "(r + 1) mod 2 ^ k"
  have st: "(rr - ?r) mod 2 ^ k = (rr - r) mod 2 ^ k - 1"
    by (rule ring_step(1)[OF Suc.prems(1,2,3,4) ne])
  have n: "n = nat ((rr - ?r) mod 2 ^ k)" using Suc.hyps(2) st by simp
  have rg: "0 \<le> ?r" "?r < 2 ^ k" by simp_all
  from Suc.hyps(1)[OF n rg Suc.prems(3,4), of "d @ [g r]"]
  obtain d' where d': "send_rx_loop k g ?r rr (d @ [g r]) = Some d'"
      "int (length d') = int (length (d @ [g r])) + (rr - ?r) mod 2 ^ k" by blast
  have "send_rx_loop k g r rr d = Some d'"
    by (subst send_rx_loop.simps) (simp add: ne mask_mod d'(1))
  moreover have "int (length d') = int (length d) + (rr - r) mod 2 ^ k"
    using d'(2) st by simp
  ultimately show ?case by blast
qed

lemma send_tx_loop_total:
  assumes "0 \<le> r" "r < 2 ^ k" "0 \<le> rr" "rr < 2 ^ k"
  shows "\<exists>d' r' t'. send_tx_loop k f r rr t tt d = Some (d', r', t')
            \<and> 0 \<le> r' \<and> r' < 2 ^ k
            \<and> int (length d') + (rr - r') mod 2 ^ k = int (length d) + (rr - r) mod 2 ^ k"
  using assms
proof (induction "nat ((rr - r) mod 2 ^ k)" arbitrary: r t d)
  case 0
  have "r = rr"
  proof (rule ccontr)
    assume "r \<noteq> rr"
    from ring_step(2)[OF "0.prems"(1,2,3,4) this] "0.hyps" show False by simp
  qed
  then show ?case using "0.prems" by (subst send_tx_loop.simps) simp
next
  case (Suc n)
  have ne: "r \<noteq> rr" using Suc.hyps(2) by auto
  show ?case
  proof (cases "t = tt")
    case True
    then show ?thesis using Suc.prems by (subst send_tx_loop.simps) simp
  next
    case False
    let ?r = "(r + 1) mod 2 ^ k"
    let ?t = "(t + 1) mod 2 ^ k"
    have st: "(rr - ?r) mod 2 ^ k = (rr - r) mod 2 ^ k - 1"
      by (rule ring_step(1)[OF Suc.prems(1,2,3,4) ne])
    have n: "n = nat ((rr - ?r) mod 2 ^ k)" using Suc.hyps(2) st by simp
    have rg: "0 \<le> ?r" "?r < 2 ^ k" by simp_all
    from Suc.hyps(1)[OF n rg Suc.prems(3,4), of ?t "d @ [f t r]"]
    obtain d' r' t' where d': "send_tx_loop k f ?r rr ?t tt (d @ [f t r]) = Some (d', r', t')"
        "0 \<le> r'" "r' < 2 ^ k"
        "int (length d') + (rr - r') mod 2 ^ k = int (length (d @ [f t r])) + (rr - ?r) mod 2 ^ k"
      by blast
    have "send_tx_loop k f r rr t tt d = Some (d', r', t')"
      by (subst send_tx_loop.simps) (simp add: ne False mask_mod d'(1))
    moreover have "int (length d') + (rr - r') mod 2 ^ k = int (length d) + (rr - r) mod 2 ^ k"
      using d'(4) st by simp
    ultimately show ?thesis using d'(2,3) by blast
  qed
qed


lemma send_single_total:
  assumes "0 \<le> r" "r < 2 ^ k" "0 \<le> rr" "rr < 2 ^ k"
  shows "\<exists>out' t'. send_single k tab d r rr t tt out = Some (out', t')
            \<and> int (length out') = int (length out) + (rr - r) mod 2 ^ k"
proof (cases "echo d")
  case False
  from send_tx_loop_total[OF assms, of "\<lambda>t r. tx_buff d t" t tt out]
  obtain d' r' t' where l: "send_tx_loop k (\<lambda>t r. tx_buff d t) r rr t tt out = Some (d', r', t')"
     "int (length d') + (rr - r') mod 2 ^ k = int (length out) + (rr - r) mod 2 ^ k" by blast
  have "r' = rr \<Longrightarrow> (rr - r') mod 2 ^ k = 0" by simp
  with l show ?thesis using False by (auto simp add: send_single_def mask_mod)
next
  case True
  let ?f = "\<lambda>t r. encode_sample tab d (decode_law tab d (tx_buff d t) + decode_law tab d (rx_buff d r))"
  from send_tx_loop_total[OF assms, of ?f t tt out]
  obtain d' r' t' where l: "send_tx_loop k ?f r rr t tt out = Some (d', r', t')"
     "0 \<le> r'" "r' < 2 ^ k"
     "int (length d') + (rr - r') mod 2 ^ k = int (length out) + (rr - r) mod 2 ^ k" by blast
  from send_rx_loop_total[OF l(2,3) assms(3,4), of "\<lambda>r. rx_buff d r" d']
  obtain d'' where m: "send_rx_loop k (\<lambda>r. rx_buff d r) r' rr d' = Some d''"
     "int (length d'') = int (length d') + (rr - r') mod 2 ^ k" by blast
  show ?thesis using True l(1,4) m by (simp add: send_single_def)
qed

lemma send_two_loops:
  assumes "0 \<le> r" "r < 2 ^ k" "0 \<le> rr" "rr < 2 ^ k"
  shows "\<exists>out' t'. (case send_tx_loop k f r rr t tt out of
                      None \<Rightarrow> None
                    | Some (out1, r1, t1) \<Rightarrow>
                       (case send_rx_loop k g r1 rr out1 of
                          None \<Rightarrow> None
                        | Some out2 \<Rightarrow> Some (out2, t1))) = Some (out', t')
            \<and> int (length out') = int (length out) + (rr - r) mod 2 ^ k"
proof -
  from send_tx_loop_total[OF assms, of f t tt out]
  obtain d' r' t' where l: "send_tx_loop k f r rr t tt out = Some (d', r', t')"
     "0 \<le> r'" "r' < 2 ^ k"
     "int (length d') + (rr - r') mod 2 ^ k = int (length out) + (rr - r) mod 2 ^ k" by blast
  from send_rx_loop_total[OF l(2,3) assms(3,4), of g d']
  obtain d'' where m: "send_rx_loop k g r' rr d' = Some d''"
     "int (length d'') = int (length d') + (rr - r') mod 2 ^ k" by blast
  show ?thesis using l(1,4) m by simp
qed

lemma send_pair_total:
  assumes "0 \<le> r" "r < 2 ^ k" "0 \<le> rr" "rr < 2 ^ k"
  shows "\<exists>out' t'. send_pair k tab d other r rr t tt out = Some (out', t')
            \<and> int (length out') = int (length out) + (rr - r) mod 2 ^ k"
  unfolding send_pair_def
  by (cases "echo d") (simp_all only: if_True if_False not_True_eq_False not_False_eq_True
        send_two_loops[OF assms])

lemma send_group_total:
  assumes "0 \<le> r" "r < 2 ^ k" "0 \<le> rr" "rr < 2 ^ k"
  shows "\<exists>out' t'. send_group k tab d c r rr t tt out = Some (out', t')
            \<and> int (length out') = int (length out) + (rr - r) mod 2 ^ k"
  unfolding send_group_def
  by (cases "echo d") (simp_all only: if_True if_False not_True_eq_False not_False_eq_True
        send_two_loops[OF assms])

lemma send_data_total:
  assumes "0 \<le> r" "r < 2 ^ k" "0 \<le> rr" "rr < 2 ^ k"
    and wf: "\<And>c. conf d = Some c \<Longrightarrow> mlist (confs st c) \<noteq> []"
  shows "\<exists>out t'. send_data k tab st p d r rr t tt = Some (out, t')
            \<and> int (length out) = (rr - r) mod 2 ^ k"
proof -
  define drain where "drain = (\<not> tx_mix d \<and> t \<noteq> tt)"
  have "\<exists>out r1 t1. (if drain then send_tx_loop k (\<lambda>t r. tx_buff d t) r rr t tt []
            else Some ([], r, t)) = Some (out, r1, t1)
          \<and> 0 \<le> r1 \<and> r1 < 2 ^ k
          \<and> int (length out) + (rr - r1) mod 2 ^ k = (rr - r) mod 2 ^ k"
    using send_tx_loop_total[OF assms(1-4), of "\<lambda>t r. tx_buff d t" t tt "[]"] assms(1,2)
    by (cases drain) simp_all
  then obtain out r1 t1 where
    l: "(if drain then send_tx_loop k (\<lambda>t r. tx_buff d t) r rr t tt []
            else Some ([], r, t)) = Some (out, r1, t1)"
     and r1: "0 \<le> r1" "r1 < 2 ^ k"
     and len: "int (length out) + (rr - r1) mod 2 ^ k = (rr - r) mod 2 ^ k" by blast
  have eq: "send_data k tab st p d r rr t tt =
       (if drain \<and> r1 = rr then Some (out, t1)
          else
            (case conf d of
               None \<Rightarrow> send_single k tab d r1 rr t1 tt out
             | Some c \<Rightarrow>
                (case mlist (confs st c) of
                   [] \<Rightarrow> None
                 | [m] \<Rightarrow> send_single k tab d r1 rr t1 tt out
                 | [m1, m2] \<Rightarrow>
                     send_pair k tab d
                       (dsps st (if m_dsp m1 = p then m_dsp m2 else m_dsp m1)) r1 rr t1 tt out
                 | _ \<Rightarrow> send_group k tab d (conf_buff (confs st c)) r1 rr t1 tt out)))"
    using l unfolding send_data_def drain_def by simp
  note tot = send_single_total[OF r1 assms(3,4), of tab d t1 tt out]
    send_pair_total[OF r1 assms(3,4), of tab d _ t1 tt out]
    send_group_total[OF r1 assms(3,4), of tab d _ t1 tt out]
  show ?thesis
  proof (cases "drain \<and> r1 = rr")
    case True
    then show ?thesis using eq len by simp
  next
    case False
    show ?thesis
    proof (cases "conf d")
      case None
      then show ?thesis using eq False tot(1) len by auto
    next
      case (Some c)
      with wf have "mlist (confs st c) \<noteq> []" by simp
      then show ?thesis using eq False Some tot len
        by (auto split: list.splits)
    qed
  qed
qed

lemma send_r_rr:
  assumes "0 \<le> R_rx (dsps st p)" "R_rx (dsps st p) < 2 ^ k"
    and "0 \<le> send_limit st p" "send_limit st p < 2 ^ k"
  shows "0 \<le> send_r k st p len" "send_r k st p len < 2 ^ k"
    "0 \<le> send_rr k st p len" "send_rr k st p len < 2 ^ k"
  using assms by (simp_all add: send_r_def send_rr_def mask_mod)

lemma send_distance:
  "(send_rr k st p len - send_r k st p len) mod 2 ^ k = len mod 2 ^ k"
proof (cases "send_overrun k st p len")
  case True
  have "(send_limit st p - (send_limit st p - len) mod 2 ^ k) mod 2 ^ k
          = (send_limit st p - (send_limit st p - len)) mod 2 ^ k"
    by (simp add: mod_diff_right_eq)
  then show ?thesis using True by (simp add: send_r_def send_rr_def mask_mod)
next
  case False
  have "((R_rx (dsps st p) + len) mod 2 ^ k - R_rx (dsps st p)) mod 2 ^ k
          = (R_rx (dsps st p) + len - R_rx (dsps st p)) mod 2 ^ k"
    by (simp add: mod_diff_left_eq)
  then show ?thesis using False by (simp add: send_r_def send_rr_def mask_mod)
qed

text \<open>
  What a call with a successful allocation returns, on a channel whose read pointer and
  read limit are ring indices and whose conference (if any) has a member: the bytes the
  loops wrote, \<open>len mod BUFF_SIZE\<close> of them, at the start of a frame of \<open>len\<close>
  bytes. The tone generator writes all \<open>len\<close> bytes.
\<close>

lemma send_frame_written:
  assumes "0 \<le> len"
    and "0 \<le> R_rx (dsps st p)" and "R_rx (dsps st p) < CMX_BUFF_SIZE k"
    and "0 \<le> send_limit st p" and "send_limit st p < CMX_BUFF_SIZE k"
    and "\<And>c. conf (dsps st p) = Some c \<Longrightarrow> mlist (confs st c) \<noteq> []"
  shows "\<exists>out st'. dsp_cmx_send k tab st p len True = Some (Some (skb_frame len out), st')
                     \<and> int (length out) = (if tone_tone (dsps st p) then len
                                            else len mod CMX_BUFF_SIZE k)"
proof (cases "tone_tone (dsps st p)")
  case True
  let ?out = "map (\<lambda>i. tone_pattern (dsps st p) (tone_index (dsps st p) + int i)) [0..<nat len]"
  have "\<exists>st'. dsp_cmx_send k tab st p len True = Some (Some (skb_frame len ?out), st')"
    using True assms(1) by (simp add: dsp_cmx_send_def Let_def dsp_tone_copy_def)
  moreover have "int (length ?out) = len" using assms(1) by simp
  ultimately show ?thesis using True by auto
next
  case False
  let ?d = "(dsps st p)\<lparr>R_rx := send_rr k st p len\<rparr>"
  note rg = send_r_rr[OF assms(2-5)[unfolded CMX_BUFF_SIZE_def], of len]
  have wf: "\<And>c. conf ?d = Some c \<Longrightarrow> mlist (confs st c) \<noteq> []"
    using assms(6) by simp
  from send_data_total[OF rg, of ?d st tab p "R_tx (dsps st p)" "W_tx (dsps st p)", OF wf]
  obtain out t' where
    o: "send_data k tab st p ?d (send_r k st p len) (send_rr k st p len)
          (R_tx (dsps st p)) (W_tx (dsps st p)) = Some (out, t')"
      "int (length out) = (send_rr k st p len - send_r k st p len) mod 2 ^ k" by blast
  have "int (length out) = len mod CMX_BUFF_SIZE k"
    using o(2) by (simp add: send_distance CMX_BUFF_SIZE_def)
  moreover have "\<exists>st'. dsp_cmx_send k tab st p len True = Some (Some (skb_frame len out), st')"
    using False o(1) assms(1) by (simp add: dsp_cmx_send_def Let_def)
  ultimately show ?thesis using False by auto
qed

lemma skb_frame_length:
  "0 \<le> len \<Longrightarrow> int (length out) \<le> len \<Longrightarrow> int (length (skb_frame len out)) = len"
  by (simp add: skb_frame_def)

text \<open>
  Claim C1. The frame that is returned has \<open>len\<close> bytes, but the loops run from
  \<open>r\<close> to \<open>rr\<close>, which are \<open>len mod BUFF_SIZE\<close> apart: "now: rr is exactly "len"
  bytes after r now" does not hold from \<open>len = BUFF_SIZE\<close> on. A channel outside any
  conference that is asked for \<open>BUFF_SIZE\<close> bytes returns a frame of \<open>BUFF_SIZE\<close>
  bytes none of which was written: with the ring of 16384 cells, and with a ring of any
  size.
\<close>

theorem send_frame_unwritten:
  "map_option fst (dsp_cmx_send 14 example_tables empty_registry 1 16384 True)
     = Some (Some (replicate 16384 None))
   \<and> map_option fst (dsp_cmx_send k example_tables empty_registry 1 (CMX_BUFF_SIZE k) True)
     = Some (Some (replicate (2 ^ k) None))"
proof -
  have r: "send_r k empty_registry 1 (CMX_BUFF_SIZE k) = 0"
      "send_rr k empty_registry 1 (CMX_BUFF_SIZE k) = 0"
    by (simp_all add: send_r_def send_rr_def send_overrun_def send_limit_def mask_mod
          CMX_BUFF_SIZE_def example_defs)
  have n: "nat (2 ^ k) = 2 ^ k" by (simp add: nat_power_eq)
  have "map_option fst (dsp_cmx_send k example_tables empty_registry 1 (CMX_BUFF_SIZE k) True)
          = Some (Some (replicate (2 ^ k) None))"
    unfolding dsp_cmx_send_def Let_def r
    by (simp add: send_data_def send_single_def send_tx_loop.simps skb_frame_def
          CMX_BUFF_SIZE_def example_defs n)
  moreover have "map_option fst (dsp_cmx_send 14 example_tables empty_registry 1 16384 True)
          = Some (Some (replicate 16384 None))"
    by (simp add: dsp_cmx_send_def Let_def send_data_def send_single_def send_tx_loop.simps
          send_r_def send_rr_def send_overrun_def send_limit_def mask_mod CMX_BUFF_HALF_def
          skb_frame_def example_defs)
  ultimately show ?thesis by simp
qed

text \<open>
  Claim C10. Every call that returns a frame stores \<open>rr\<close> in \<^verbatim>\<open>dsp->R_rx\<close>, in
  the tone branch as in every other. The read limit is \<^verbatim>\<open>conf->W_min\<close> for a
  channel in a conference and the channel's \<^verbatim>\<open>W_rx\<close> otherwise. \<open>rr\<close> is the old
  \<^verbatim>\<open>R_rx\<close> plus \<open>len\<close> when that does not pass the limit, and else the limit
  itself, with the read start \<open>r\<close> clamped to \<open>len\<close> bytes before the limit; in
  both cases \<open>rr\<close> is \<open>len\<close> bytes (modulo the ring size) beyond \<open>r\<close>. Without a
  tone, the frame holds what the loops write when they read from \<open>r\<close> to \<open>rr\<close>.
\<close>

theorem send_advances_R_rx:
  assumes "dsp_cmx_send k tab st p len alloc = Some (Some frame, st')"
    and "limit = (case conf (dsps st p) of
                    Some c \<Rightarrow> c_W_min (confs st c)
                  | None \<Rightarrow> W_rx (dsps st p))"
    and "passes = (CMX_BUFF_HALF k \<le> (limit - R_rx (dsps st p) - len) mod CMX_BUFF_SIZE k)"
    and "rr = (if passes then limit else (R_rx (dsps st p) + len) mod CMX_BUFF_SIZE k)"
    and "r = (if passes then (limit - len) mod CMX_BUFF_SIZE k else R_rx (dsps st p))"
  shows "R_rx (dsps st' p) = rr
       \<and> (rr - r) mod CMX_BUFF_SIZE k = len mod CMX_BUFF_SIZE k
       \<and> (tone_tone (dsps st p)
          \<or> (\<exists>out t. send_data k tab st p ((dsps st p)\<lparr>R_rx := rr\<rparr>) r rr
                         (R_tx (dsps st p)) (W_tx (dsps st p)) = Some (out, t)
                     \<and> frame = skb_frame len out))"
proof -
  have lim: "limit = send_limit st p" using assms(2) by (simp add: send_limit_def)
  have pas: "passes = send_overrun k st p len"
    using assms(3) by (simp add: send_overrun_def lim mask_mod CMX_BUFF_SIZE_def)
  have rr: "rr = send_rr k st p len"
    using assms(4) by (simp add: send_rr_def pas lim mask_mod CMX_BUFF_SIZE_def)
  have r: "r = send_r k st p len"
    using assms(5) by (simp add: send_r_def pas lim mask_mod CMX_BUFF_SIZE_def)
  have a: "R_rx (dsps st' p) = rr"
    using assms(1) unfolding rr
    by (auto simp add: dsp_cmx_send_def Let_def dsp_tone_copy_def
          split: if_splits option.splits prod.splits)
  have b: "(rr - r) mod CMX_BUFF_SIZE k = len mod CMX_BUFF_SIZE k"
    unfolding rr r by (simp add: send_distance CMX_BUFF_SIZE_def)
  have c: "tone_tone (dsps st p)
          \<or> (\<exists>out t. send_data k tab st p ((dsps st p)\<lparr>R_rx := rr\<rparr>) r rr
                         (R_tx (dsps st p)) (W_tx (dsps st p)) = Some (out, t)
                     \<and> frame = skb_frame len out)"
    using assms(1) unfolding rr r
    by (auto simp add: dsp_cmx_send_def Let_def split: if_splits option.splits prod.splits)
  from a b c show ?thesis by blast
qed

theorem send_advances_R_rx_witness:
  "conf (dsps tone_member 1) = Some 1
   \<and> tone_tone (dsps tone_member 1)
   \<and> R_rx (dsps tone_member 1) = 0
   \<and> W_rx (dsps tone_member 1) = 300
   \<and> c_W_min (confs tone_member 1) = 2
   \<and> map_option (\<lambda>x. R_rx (dsps (snd x) 1)) (dsp_cmx_send 14 example_tables tone_member 1 3 True)
       = Some 2
   \<and> map_option (\<lambda>x. R_rx (dsps (snd x) 1)) (dsp_cmx_send 14 example_tables tone_member 1 1 True)
       = Some 1"
proof -
  have pre: "conf (dsps tone_member 1) = Some 1" "tone_tone (dsps tone_member 1)"
      "R_rx (dsps tone_member 1) = 0" "W_rx (dsps tone_member 1) = 300"
      "c_W_min (confs tone_member 1) = 2"
    by (simp_all add: tone_member_def example_defs)
  obtain f3 s3 where r3: "dsp_cmx_send 14 example_tables tone_member 1 3 True = Some (Some f3, s3)"
    by (simp add: dsp_cmx_send_def Let_def dsp_tone_copy_def tone_member_def example_defs)
  obtain f1 s1 where r1: "dsp_cmx_send 14 example_tables tone_member 1 1 True = Some (Some f1, s1)"
    by (simp add: dsp_cmx_send_def Let_def dsp_tone_copy_def tone_member_def example_defs)
  from send_advances_R_rx [OF r3 refl refl refl refl]
  have "R_rx (dsps s3 1) = 2"
    by (simp add: CMX_BUFF_SIZE_def CMX_BUFF_HALF_def tone_member_def example_defs)
  moreover from send_advances_R_rx [OF r1 refl refl refl refl]
  have "R_rx (dsps s1 1) = 1"
    by (simp add: CMX_BUFF_SIZE_def CMX_BUFF_HALF_def tone_member_def example_defs)
  ultimately show ?thesis using r3 r1 pre by simp
qed

subsection \<open>The DTMF debouncer\<close>

text \<open>
  The debouncing does not read the sample buffer. A call of the loop is a run of
  \<open>dtmf_frame\<close> over the frames it completes, which are the frames it adds to the
  log; only the buffer, its fill level and the log differ.
\<close>

lemma dtmf_frame_ghost:
  "dtmf_frame cap (dt\<lparr>buffer := b, dtmf_size := z, frame_log := l\<rparr>) r
     = (dtmf_frame cap dt r)\<lparr>buffer := b, dtmf_size := z, frame_log := l\<rparr>"
  by (simp add: dtmf_frame_def storedigit_def Let_def)

lemma dtmf_frame_log: "frame_log (dtmf_frame cap dt r) = frame_log dt"
  by (simp add: dtmf_frame_def storedigit_def Let_def)

lemma dtmf_frames_ghost:
  "foldl (dtmf_frame cap) (dt\<lparr>buffer := b, dtmf_size := z, frame_log := l\<rparr>) fs
     = (foldl (dtmf_frame cap) dt fs)\<lparr>buffer := b, dtmf_size := z, frame_log := l\<rparr>"
  by (induction fs arbitrary: dt) (simp_all add: dtmf_frame_ghost)

lemma decode_loop_fold:
  "\<exists>fs b z. decode_loop tab view cap fmt dt data
       = (foldl (dtmf_frame cap) dt fs)\<lparr>buffer := b, dtmf_size := z, frame_log := frame_log dt @ fs\<rparr>"
proof (induction tab view cap fmt dt data rule: decode_loop.induct)
  case (1 tab view cap fmt dt data)
  show ?case
  proof (cases "fmt = 0 \<or> fmt = 1")
    case True
    obtain buf sz rest where fill:
      "dtmf_fill (if fmt = 0 then dsp_audio_alaw_to_s32 tab else dsp_audio_ulaw_to_s32 tab)
         (buffer dt) (dtmf_size dt) data = (buf, sz, rest)"
      by (metis prod_cases3)
    show ?thesis
    proof (cases "sz < DSP_DTMF_NPOINTS")
      case short: True
      have "decode_loop tab view cap fmt dt data = dt\<lparr>buffer := buf, dtmf_size := sz\<rparr>"
        using True fill short by (subst decode_loop.simps) simp
      then have "decode_loop tab view cap fmt dt data
          = (foldl (dtmf_frame cap) dt [])\<lparr>buffer := buf, dtmf_size := sz,
                frame_log := frame_log dt @ []\<rparr>" by simp
      then show ?thesis by blast
    next
      case full: False
      let ?r = "goertzel_result buf"
      let ?dt = "dtmf_frame cap
                   (dt\<lparr>buffer := buf, dtmf_size := 0, frame_log := frame_log dt @ [?r]\<rparr>) ?r"
      have eq: "decode_loop tab view cap fmt dt data = decode_loop tab view cap fmt ?dt rest"
        using True fill full by (subst decode_loop.simps) simp
      from "1.IH"(1)[OF True fill[symmetric] refl full]
      obtain fs b z where
        ih: "decode_loop tab view cap fmt ?dt rest
              = (foldl (dtmf_frame cap) ?dt fs)\<lparr>buffer := b, dtmf_size := z,
                    frame_log := frame_log ?dt @ fs\<rparr>" by blast
      have "decode_loop tab view cap fmt dt data
              = (foldl (dtmf_frame cap) dt (?r # fs))\<lparr>buffer := b, dtmf_size := z,
                    frame_log := frame_log dt @ (?r # fs)\<rparr>"
        unfolding eq ih by (simp add: dtmf_frame_ghost dtmf_frames_ghost dtmf_frame_log)
      then show ?thesis by blast
    qed
  next
    case False
    show ?thesis
    proof (cases "data = [] \<or> length data < SIZEOF_RESULT")
      case True
      then have "decode_loop tab view cap fmt dt data = dt"
        using False by (subst decode_loop.simps) auto
      then have "decode_loop tab view cap fmt dt data
          = (foldl (dtmf_frame cap) dt [])\<lparr>buffer := buffer dt, dtmf_size := dtmf_size dt,
                frame_log := frame_log dt @ []\<rparr>"
        by simp
      then show ?thesis by blast
    next
      case more: False
      let ?r = "view (take SIZEOF_RESULT data)"
      let ?dt = "dtmf_frame cap (dt\<lparr>frame_log := frame_log dt @ [?r]\<rparr>) ?r"
      have ne: "data \<noteq> []" "\<not> length data < SIZEOF_RESULT" using more by auto
      have eq: "decode_loop tab view cap fmt dt data
                  = decode_loop tab view cap fmt ?dt (drop SIZEOF_RESULT data)"
        using False ne by (subst decode_loop.simps) simp
      have dt: "?dt = (dtmf_frame cap dt ?r)\<lparr>buffer := buffer dt, dtmf_size := dtmf_size dt,
                         frame_log := frame_log dt @ [?r]\<rparr>"
        using dtmf_frame_ghost[where cap = cap and dt = dt and b = "buffer dt" and z = "dtmf_size dt"
                and l = "frame_log dt @ [?r]" and r = ?r]
        by simp
      from "1.IH"(2)[OF False ne]
      obtain fs b z where
        ih: "decode_loop tab view cap fmt ?dt (drop SIZEOF_RESULT data)
              = (foldl (dtmf_frame cap) ?dt fs)\<lparr>buffer := b, dtmf_size := z,
                    frame_log := frame_log ?dt @ fs\<rparr>" by blast
      have "decode_loop tab view cap fmt dt data
              = (foldl (dtmf_frame cap) dt (?r # fs))\<lparr>buffer := b, dtmf_size := z,
                    frame_log := frame_log dt @ (?r # fs)\<rparr>"
        unfolding eq ih unfolding dt by (simp add: dtmf_frames_ghost)
      then show ?thesis by blast
    qed
  qed
qed

text \<open>
  A call of the decoder therefore is \<open>within_call\<close> on the frames it has added to the
  log, as far as the debouncer and the digit string are concerned.
\<close>

lemma decode_within_call:
  "\<exists>fs b z. dsp_dtmf_goertzel_decode tab view cap dt data fmt
       = (within_call cap dt fs)\<lparr>buffer := b, dtmf_size := z, frame_log := frame_log dt @ fs\<rparr>"
  using decode_loop_fold[of tab view cap fmt "dt\<lparr>digits := []\<rparr>" data]
  by (simp add: dsp_dtmf_goertzel_decode_def within_call_def)

lemma storedigit_fields:
  "lastwhat (storedigit cap s w) = w"
  "dtmf_count (storedigit cap s w) =
     (if lastwhat s = w then (if dtmf_count s = 2 then 2 else dtmf_count s + 1) else 1)"
  by (simp_all add: storedigit_def Let_def)

lemma storedigit_digits:
  "digits (storedigit cap s w) =
     (if lastwhat s = w \<and> dtmf_count s = 2 \<and> lastdigit s \<noteq> w \<and> w \<noteq> 0
         \<and> int (length (digits s)) + 1 < cap
      then digits s @ [w] else digits s)"
  by (simp add: storedigit_def Let_def)

text \<open>\<^verbatim>\<open>lastdigit\<close> is the last decision that was confirmed, a digit or 0 for no tone.\<close>

lemma storedigit_lastdigit:
  "lastdigit (storedigit cap s w) = (if lastwhat s = w \<and> dtmf_count s = 2 then w else lastdigit s)"
  by (simp add: storedigit_def Let_def)

text \<open>
  After any number of calls since \<^verbatim>\<open>dsp_dtmf_goertzel_init\<close>, the counter is 0, 1 or
  2, and it tells how many of the latest frames (up to two) had the decision that
  \<^verbatim>\<open>lastwhat\<close> holds.
\<close>

lemma debounced_ghost:
  "debounced ds (dt\<lparr>buffer := b, dtmf_size := z, frame_log := l\<rparr>) = debounced ds dt"
  "debounced ds (dt\<lparr>digits := x\<rparr>) = debounced ds dt"
  by (simp_all add: debounced_def)

lemma debounced_frame:
  assumes "debounced ds dt"
  shows "debounced (ds @ [dtmf_what r]) (dtmf_frame cap dt r)"
proof -
  define w where "w = dtmf_what r"
  from assms consider
      (zero) "dtmf_count dt = 0" "ds = []"
    | (one) pre where "dtmf_count dt = 1" "ds = pre @ [lastwhat dt]"
    | (two) pre where "dtmf_count dt = 2" "ds = pre @ [lastwhat dt, lastwhat dt]"
    unfolding debounced_def by blast
  then have "debounced (ds @ [w]) (storedigit cap dt w)"
  proof cases
    case zero
    then show ?thesis by (simp add: debounced_def storedigit_fields)
  next
    case one
    then show ?thesis by (simp add: debounced_def storedigit_fields)
  next
    case two
    have "\<exists>pre'. pre @ [lastwhat dt, lastwhat dt, lastwhat dt] = pre' @ [lastwhat dt, lastwhat dt]"
      by (rule exI[of _ "pre @ [lastwhat dt]"]) simp
    with two show ?thesis by (simp add: debounced_def storedigit_fields)
  qed
  then show ?thesis by (simp add: dtmf_frame_def w_def)
qed

lemma debounced_frames:
  "debounced ds dt \<Longrightarrow> debounced (ds @ map dtmf_what fs) (foldl (dtmf_frame cap) dt fs)"
proof (induction fs arbitrary: ds dt)
  case Nil
  then show ?case by simp
next
  case (Cons r fs)
  from Cons.IH[OF debounced_frame[OF Cons.prems, of r cap]] show ?case by simp
qed

lemma decode_debounced:
  assumes "debounced (map dtmf_what (frame_log dt)) dt"
  shows "debounced (map dtmf_what (frame_log (dsp_dtmf_goertzel_decode tab view cap dt data fmt)))
           (dsp_dtmf_goertzel_decode tab view cap dt data fmt)"
proof -
  from decode_within_call[of tab view cap dt data fmt]
  obtain fs b z where
    d: "dsp_dtmf_goertzel_decode tab view cap dt data fmt
          = (within_call cap dt fs)\<lparr>buffer := b, dtmf_size := z, frame_log := frame_log dt @ fs\<rparr>"
    by blast
  have "debounced (map dtmf_what (frame_log dt)) (dt\<lparr>digits := []\<rparr>)"
    using assms by (simp add: debounced_ghost)
  from debounced_frames[OF this, of fs cap] show ?thesis
    unfolding d by (simp add: debounced_ghost within_call_def)
qed

lemma session_debounced:
  "debounced (map dtmf_what (frame_log (dtmf_session tab view cap dt calls)))
     (dtmf_session tab view cap dt calls)"
proof (induction calls rule: rev_induct)
  case Nil
  then show ?case by (simp add: dtmf_session_def dsp_dtmf_goertzel_init_def debounced_def)
next
  case (snoc c calls)
  obtain data fmt where c: "c = (data, fmt)" by (cases c)
  have "dtmf_session tab view cap dt (calls @ [c])
          = dsp_dtmf_goertzel_decode tab view cap (dtmf_session tab view cap dt calls) data fmt"
    unfolding c dtmf_session_def by simp
  then show ?case using decode_debounced[OF snoc] by simp
qed

lemma dtmf_what_tone_5: "dtmf_what tone_5 = 0x35"
  by (simp add: dtmf_what_def tone_5_def DTMF_TRESH_def NCOEFF_def dtmf_matrix_def Let_def
        drop_bit_eq_div)

text \<open>
  Claim C9, as amended. Take any state \<open>s\<close> that calls of the decoder have led to
  since the initialisation, and a call on \<open>s\<close> that completes one frame more than
  another call on \<open>s\<close> does. If the longer call returns other digits than the shorter
  one, then the decision of the additional frame is the decision of the two frames
  before it (which may lie in earlier calls), it differs from \<^verbatim>\<open>lastdigit\<close>, the
  last decision that was confirmed, it is not 0, and it is the one digit that the
  additional frame has appended. Hence a decision that held for one or two frames only
  is never emitted.
\<close>

theorem dtmf_emits_after_three_equal_frames:
  assumes "s = dtmf_session tab view cap dt calls"
    and "frame_log (dsp_dtmf_goertzel_decode tab view cap s longer fmt)
           = frame_log (dsp_dtmf_goertzel_decode tab view cap s data fmt) @ [result]"
    and "digits (dsp_dtmf_goertzel_decode tab view cap s longer fmt)
           \<noteq> digits (dsp_dtmf_goertzel_decode tab view cap s data fmt)"
  shows "(\<exists>pre. map dtmf_what (frame_log (dsp_dtmf_goertzel_decode tab view cap s data fmt))
                 = pre @ [dtmf_what result, dtmf_what result])
       \<and> dtmf_what result \<noteq> lastdigit (dsp_dtmf_goertzel_decode tab view cap s data fmt)
       \<and> dtmf_what result \<noteq> 0
       \<and> digits (dsp_dtmf_goertzel_decode tab view cap s longer fmt)
           = digits (dsp_dtmf_goertzel_decode tab view cap s data fmt) @ [dtmf_what result]"
proof -
  let ?short = "dsp_dtmf_goertzel_decode tab view cap s data fmt"
  let ?long = "dsp_dtmf_goertzel_decode tab view cap s longer fmt"
  let ?w = "dtmf_what result"
  from decode_within_call[of tab view cap s data fmt]
  obtain fs b z where
    short: "?short = (within_call cap s fs)\<lparr>buffer := b, dtmf_size := z,
                         frame_log := frame_log s @ fs\<rparr>" by blast
  from decode_within_call[of tab view cap s longer fmt]
  obtain fs' b' z' where
    long: "?long = (within_call cap s fs')\<lparr>buffer := b', dtmf_size := z',
                       frame_log := frame_log s @ fs'\<rparr>" by blast
  have "frame_log s @ fs' = (frame_log s @ fs) @ [result]"
    using assms(2) unfolding short long by simp
  then have fs': "fs' = fs @ [result]" by simp
  define m where "m = within_call cap s fs"
  have step: "within_call cap s fs' = storedigit cap m ?w"
    unfolding fs' m_def by (simp add: within_call_def dtmf_frame_def)
  have f: "digits ?short = digits m" "lastdigit ?short = lastdigit m"
      "lastwhat ?short = lastwhat m" "dtmf_count ?short = dtmf_count m"
    unfolding short m_def by simp_all
  have g: "digits ?long = digits (storedigit cap m ?w)"
    unfolding long step by simp
  from assms(3) have c: "lastwhat m = ?w" "dtmf_count m = 2" "lastdigit m \<noteq> ?w" "?w \<noteq> 0"
      "int (length (digits m)) + 1 < cap"
    unfolding f g by (simp_all add: storedigit_digits split: if_splits)
  have "debounced (map dtmf_what (frame_log ?short)) ?short"
    unfolding assms(1) by (rule decode_debounced[OF session_debounced])
  then have "\<exists>pre. map dtmf_what (frame_log ?short) = pre @ [?w, ?w]"
    using c(1,2) unfolding debounced_def f by simp
  moreover have "?w \<noteq> lastdigit ?short" using c(3) unfolding f by simp
  moreover have "digits ?long = digits ?short @ [?w]"
    unfolding f g using c by (simp add: storedigit_digits)
  ultimately show ?thesis using c(4) by blast
qed

theorem dtmf_emits_after_three_equal_frames_witness:
  "digits (dsp_dtmf_goertzel_decode example_tables example_view 16
             (dtmf_session example_tables example_view 16 stale_dtmf [(tone_block, 2)])
             tone_block 2) = []
   \<and> digits (dsp_dtmf_goertzel_decode example_tables example_view 16
             (dtmf_session example_tables example_view 16 stale_dtmf [(tone_block, 2)])
             (tone_block @ tone_block) 2) = [0x35]
   \<and> (\<exists>pre. map dtmf_what (frame_log (dsp_dtmf_goertzel_decode example_tables example_view 16
             (dtmf_session example_tables example_view 16 stale_dtmf [(tone_block, 2)])
             tone_block 2)) = pre @ [0x35, 0x35])"
proof -
  let ?s = "dtmf_session example_tables example_view 16 stale_dtmf [(tone_block, 2)]"
  let ?short = "dsp_dtmf_goertzel_decode example_tables example_view 16 ?s tone_block 2"
  let ?long = "dsp_dtmf_goertzel_decode example_tables example_view 16 ?s (tone_block @ tone_block) 2"
  have h1: "frame_log ?long = frame_log ?short @ [tone_5]" by code_simp
  have e: "digits ?short = []" by code_simp
  have h2: "digits ?long \<noteq> digits ?short" by code_simp
  from dtmf_emits_after_three_equal_frames [OF refl h1 h2] show ?thesis
    using e by (simp add: dtmf_what_tone_5)
qed

text \<open>
  The claim as stated ("differs from the last emitted digit") fails: three frames of
  silence confirm the decision 0, which resets \<^verbatim>\<open>lastdigit\<close>, and the same digit
  is emitted again. In one call on hardware coefficients, three frames of the digit 5,
  three of silence and two of the digit 5 return the string "5"; with a third frame of
  the digit 5 the call returns "55".
\<close>

theorem dtmf_emits_after_three_equal_frames_counterexample:
  "digits (dsp_dtmf_goertzel_decode example_tables example_view 16
             (dsp_dtmf_goertzel_init stale_dtmf) dial_5_pause_5 2) = [0x35]
   \<and> frame_log (dsp_dtmf_goertzel_decode example_tables example_view 16
             (dsp_dtmf_goertzel_init stale_dtmf) (dial_5_pause_5 @ tone_block) 2)
       = frame_log (dsp_dtmf_goertzel_decode example_tables example_view 16
             (dsp_dtmf_goertzel_init stale_dtmf) dial_5_pause_5 2) @ [tone_5]
   \<and> dtmf_what tone_5 = 0x35
   \<and> digits (dsp_dtmf_goertzel_decode example_tables example_view 16
             (dsp_dtmf_goertzel_init stale_dtmf) (dial_5_pause_5 @ tone_block) 2) = [0x35, 0x35]"
  by code_simp

end
